theory Spec2Isabelle
  imports Main "HOL-Library.Word" "HOL-Library.Multiset"
begin

section \<open>Strings of the program\<close>

text \<open>
  A JavaScript string is a sequence of 16-bit code units. The stored text, the form
  fields and every string constant of \<^verbatim>\<open>javascript/app.js\<close> are values of this type.
  The constants of the source are ASCII or Latin-1, so they are written as HOL string
  literals and converted code unit by code unit.
\<close>

type_synonym jschar = "16 word"
type_synonym jstring = "jschar list"

definition js :: "string \<Rightarrow> jstring" where
  "js s = map (\<lambda>c. of_nat (of_char c)) s"

section \<open>Configuration (app.js, lines 17 to 28)\<close>

definition LISTA_DE_HORARIOS_FIXOS :: "jstring list" where
  "LISTA_DE_HORARIOS_FIXOS =
     [js ''09:00'', js ''10:00'', js ''11:00'', js ''12:00'', js ''13:00'',
      js ''14:00'', js ''15:00'', js ''16:00'', js ''17:00'']"

text \<open>Months are 0-indexed as in the source: October is 9, November 10, December 11.\<close>

definition MESES_PERMITIDOS :: "int list" where
  "MESES_PERMITIDOS = [9, 10, 11]"

definition ANO_PERMITIDO :: int where
  "ANO_PERMITIDO = 2025"

text \<open>
  The exceptions of the modelled code: calling a method a value does not have and reading
  a property of \<^verbatim>\<open>null\<close> raise a TypeError. The SyntaxError of \<^verbatim>\<open>JSON.parse\<close> is
  caught where it arises and never leaves \<^verbatim>\<open>pegarListaDeAgendamentos\<close>.
\<close>

datatype erro = TypeError

section \<open>Dates: the platform's \<^verbatim>\<open>Date\<close> object\<close>

text \<open>
  The source builds \<^verbatim>\<open>new Date(dataISO + 'T00:00:00')\<close> and reads \<^verbatim>\<open>getFullYear\<close>,
  \<^verbatim>\<open>getMonth\<close> and \<^verbatim>\<open>getDay\<close> from it, all three in local time. A date-time text
  without an offset is read as local time (ECMA-262 since its 2015 edition), so the three
  getters see the calendar day the text names, in every time zone that has that day. The model keeps of a \<^verbatim>\<open>Date\<close> exactly that: the number of its local
  calendar day, counted from 1 January 1970 (day 0), or \<open>None\<close> for an invalid date
  (the time value NaN). The time of day and the zone offset play no part in the three
  getters. The day arithmetic below is the one of ECMA-262 (Day Number and Time within
  Day, Year Number, Month Number, Week Day), on day numbers instead of milliseconds.
\<close>

definition DaysInYear :: "int \<Rightarrow> int" where
  "DaysInYear y = (if y mod 4 \<noteq> 0 then 365 else if y mod 100 \<noteq> 0 then 366
                   else if y mod 400 \<noteq> 0 then 365 else 366)"

definition DayFromYear :: "int \<Rightarrow> int" where
  "DayFromYear y = 365 * (y - 1970) + (y - 1969) div 4 - (y - 1901) div 100 + (y - 1601) div 400"

text \<open>
  ECMA-262 defines the year of a day as the largest \<open>y\<close> with \<open>DayFromYear y \<le> t\<close>.
  The executable version estimates the year from the mean length of a year and corrects
  the estimate by one; lemma \<open>YearFromDay_spec\<close> below shows that it is the year of the
  definition.
\<close>

definition YearFromDay :: "int \<Rightarrow> int" where
  "YearFromDay t =
     (let y = 1970 + (400 * t) div 146097
      in if t < DayFromYear y then y - 1
         else if DayFromYear (y + 1) \<le> t then y + 1 else y)"

definition InLeapYear :: "int \<Rightarrow> int" where
  "InLeapYear t = (if DaysInYear (YearFromDay t) = 366 then 1 else 0)"

definition DayWithinYear :: "int \<Rightarrow> int" where
  "DayWithinYear t = t - DayFromYear (YearFromDay t)"

definition MonthFromDay :: "int \<Rightarrow> int" where
  "MonthFromDay t =
     (let d = DayWithinYear t; l = InLeapYear t
      in if d < 31 then 0 else if d < 59 + l then 1 else if d < 90 + l then 2
         else if d < 120 + l then 3 else if d < 151 + l then 4 else if d < 181 + l then 5
         else if d < 212 + l then 6 else if d < 243 + l then 7 else if d < 273 + l then 8
         else if d < 304 + l then 9 else if d < 334 + l then 10 else 11)"

definition WeekDay :: "int \<Rightarrow> int" where
  "WeekDay t = (t + 4) mod 7"

text \<open>
  The day number of a calendar date. The month is numbered as in the text of a date,
  from 1 to 12, and the day from 1.
\<close>

definition diasAntesDoMes :: "int \<Rightarrow> nat \<Rightarrow> int" where
  "diasAntesDoMes y m =
     (let l = (if DaysInYear y = 366 then 1 else 0)
      in if m = 1 then 0 else if m = 2 then 31 else if m = 3 then 59 + l
         else if m = 4 then 90 + l else if m = 5 then 120 + l else if m = 6 then 151 + l
         else if m = 7 then 181 + l else if m = 8 then 212 + l else if m = 9 then 243 + l
         else if m = 10 then 273 + l else if m = 11 then 304 + l else 334 + l)"

definition DaysInMonth :: "int \<Rightarrow> nat \<Rightarrow> nat" where
  "DaysInMonth y m =
     (if m = 2 then (if DaysInYear y = 366 then 29 else 28)
      else if m \<in> {4, 6, 9, 11} then 30 else 31)"

definition MakeDay :: "int \<Rightarrow> nat \<Rightarrow> nat \<Rightarrow> int" where
  "MakeDay y m d = DayFromYear y + diasAntesDoMes y m + int d - 1"

definition dataValida :: "int \<Rightarrow> nat \<Rightarrow> nat \<Rightarrow> bool" where
  "dataValida y m d \<longleftrightarrow> 1 \<le> m \<and> m \<le> 12 \<and> 1 \<le> d \<and> d \<le> DaysInMonth y m"

subsection \<open>Reading a date text\<close>

definition digito :: "jschar \<Rightarrow> nat option" where
  "digito c = (if 0x30 \<le> c \<and> c \<le> 0x39 then Some (unat c - 48) else None)"

fun decimal :: "jstring \<Rightarrow> nat \<Rightarrow> nat option" where
  "decimal [] n = Some n"
| "decimal (c # cs) n = (case digito c of None \<Rightarrow> None | Some k \<Rightarrow> decimal cs (10 * n + k))"

text \<open>
  The fields of a text of the form \<^verbatim>\<open>YYYY-MM-DDT00:00:00\<close>: four, two and two decimal
  digits, the separators, and the time the source appends.
\<close>

definition camposDaData :: "jstring \<Rightarrow> (nat \<times> nat \<times> nat) option" where
  "camposDaData s =
     (if length s = 19 \<and> s ! 4 = 0x2D \<and> s ! 7 = 0x2D \<and> drop 10 s = js ''T00:00:00''
      then (case (decimal (take 4 s) 0, decimal (take 2 (drop 5 s)) 0,
                  decimal (take 2 (drop 8 s)) 0) of
              (Some y, Some m, Some d) \<Rightarrow> Some (y, m, d)
            | _ \<Rightarrow> None)
      else None)"

text \<open>
  \<^verbatim>\<open>Date.parse\<close>. ECMA-262 fixes the result for a text in the date-time format whose
  fields are in range: here, a four-digit year, a month from 01 to 12 and a day that the
  month has, read as the local midnight of that day. For every other text (another form
  of the format, a day such as 30 February, or a text outside the format) engines differ
  or fall back to their own heuristics, so the result is the parameter \<open>outros\<close>: the
  engine's answer on the texts the standard leaves to it. Every statement below holds for
  every \<open>outros\<close>.
\<close>

definition Date_parse :: "(jstring \<Rightarrow> int option) \<Rightarrow> jstring \<Rightarrow> int option" where
  "Date_parse outros s =
     (case camposDaData s of
        Some (y, m, d) \<Rightarrow>
          if dataValida (int y) m d then Some (MakeDay (int y) m d) else outros s
      | None \<Rightarrow> outros s)"

text \<open>
  The text of a calendar date in the form \<^verbatim>\<open>YYYY-MM-DD\<close>, for a year below 10000: the
  value of a date field, and the text \<^verbatim>\<open>mostrarCalendarioAdministrador\<close> builds for each
  day of 2025 (app.js, lines 276 and 277).
\<close>

definition algarismo :: "nat \<Rightarrow> jschar" where
  "algarismo k = of_nat (48 + k mod 10)"

definition textoISO :: "nat \<Rightarrow> nat \<Rightarrow> nat \<Rightarrow> jstring" where
  "textoISO y m d =
     [algarismo (y div 1000), algarismo (y div 100), algarismo (y div 10), algarismo y, 0x2D,
      algarismo (m div 10), algarismo m, 0x2D, algarismo (d div 10), algarismo d]"

section \<open>Validation rules (app.js, lines 61 to 83)\<close>

text \<open>
  \<^verbatim>\<open>isNaN(d)\<close> is true exactly for the invalid date. \<^verbatim>\<open>getDay\<close> of an invalid date is
  NaN, which is not \<^verbatim>\<open>=== 0\<close>, so \<^verbatim>\<open>ehDomingo\<close> answers false there.
\<close>

definition dataEstaDentroDoPeriodoPermitido :: "(jstring \<Rightarrow> int option) \<Rightarrow> jstring \<Rightarrow> bool" where
  "dataEstaDentroDoPeriodoPermitido outros dataISO =
     (case Date_parse outros (dataISO @ js ''T00:00:00'') of
        None \<Rightarrow> False
      | Some t \<Rightarrow> YearFromDay t = ANO_PERMITIDO \<and> MonthFromDay t \<in> set MESES_PERMITIDOS)"

definition ehDomingo :: "(jstring \<Rightarrow> int option) \<Rightarrow> jstring \<Rightarrow> bool" where
  "ehDomingo outros dataISO =
     (case Date_parse outros (dataISO @ js ''T00:00:00'') of
        None \<Rightarrow> False
      | Some t \<Rightarrow> WeekDay t = 0)"

section \<open>The platform's \<^verbatim>\<open>JSON\<close> object\<close>

text \<open>
  The store keeps one text, and the source reads and writes it with \<^verbatim>\<open>JSON.parse\<close> and
  \<^verbatim>\<open>JSON.stringify\<close>. The values \<^verbatim>\<open>JSON.parse\<close> can return are the JSON values. A
  number keeps the text of its literal: its value as a double is not needed by anything
  the source does with a stored value, and the text \<^verbatim>\<open>JSON.stringify\<close> writes for it is
  a parameter (\<open>num\<close>) of the serializer. An object is the list of its own properties
  in the order in which JavaScript enumerates them.
\<close>

datatype jsval = JNull | JBool bool | JNum jstring | JStr jstring
  | JArr "jsval list" | JObj "(jstring \<times> jsval) list"

subsection \<open>\<^verbatim>\<open>JSON.parse\<close>\<close>

text \<open>
  A recursive-descent parser for the JSON grammar of ECMA-404, which is the grammar of
  \<^verbatim>\<open>JSON.parse\<close>: white space is space, tab, line feed and carriage return; a string
  holds any code unit from 0x20 on except the quote and the backslash, and the escapes
  \<^verbatim>\<open>\" \\ \/ \b \f \n \r \t \uXXXX\<close>; a number is an optional minus, an integer part
  without a leading zero, an optional fraction and an optional exponent. Each parser
  returns the value it read and the rest of the text, or \<open>None\<close> where
  \<^verbatim>\<open>JSON.parse\<close> throws a SyntaxError.
\<close>

definition espaco :: "jschar \<Rightarrow> bool" where
  "espaco c \<longleftrightarrow> c = 0x20 \<or> c = 0x09 \<or> c = 0x0A \<or> c = 0x0D"

definition semEspaco :: "jstring \<Rightarrow> jstring" where
  "semEspaco s = dropWhile espaco s"

definition ehDigito :: "jschar \<Rightarrow> bool" where
  "ehDigito c \<longleftrightarrow> 0x30 \<le> c \<and> c \<le> 0x39"

definition hexa :: "jschar \<Rightarrow> jschar option" where
  "hexa c = (if 0x30 \<le> c \<and> c \<le> 0x39 then Some (c - 0x30)
             else if 0x41 \<le> c \<and> c \<le> 0x46 then Some (c - 0x37)
             else if 0x61 \<le> c \<and> c \<le> 0x66 then Some (c - 0x57)
             else None)"

definition hexa4 :: "jschar \<Rightarrow> jschar \<Rightarrow> jschar \<Rightarrow> jschar \<Rightarrow> jschar option" where
  "hexa4 a b c d =
     (case (hexa a, hexa b, hexa c, hexa d) of
        (Some h3, Some h2, Some h1, Some h0) \<Rightarrow> Some (4096 * h3 + 256 * h2 + 16 * h1 + h0)
      | _ \<Rightarrow> None)"

definition simples :: "jschar \<Rightarrow> jschar option" where
  "simples e =
     (if e = 0x22 \<or> e = 0x5C \<or> e = 0x2F then Some e
      else if e = 0x62 then Some 0x08
      else if e = 0x66 then Some 0x0C
      else if e = 0x6E then Some 0x0A
      else if e = 0x72 then Some 0x0D
      else if e = 0x74 then Some 0x09
      else None)"

definition escape :: "jstring \<Rightarrow> (jschar \<times> jstring) option" where
  "escape s =
     (case s of
        [] \<Rightarrow> None
      | e # r \<Rightarrow>
          if e = 0x75 then
            (case r of
               a # b # c # d # r' \<Rightarrow>
                 (case hexa4 a b c d of None \<Rightarrow> None | Some u \<Rightarrow> Some (u, r'))
             | _ \<Rightarrow> None)
          else (case simples e of None \<Rightarrow> None | Some u \<Rightarrow> Some (u, r)))"

lemma escape_comprimento: "escape s = Some (u, r) \<Longrightarrow> length r < length s"
  by (auto simp: escape_def split: list.splits if_splits option.splits)

function texto :: "jstring \<Rightarrow> jstring \<Rightarrow> (jstring \<times> jstring) option" where
  "texto [] acc = None"
| "texto (c # cs) acc =
     (if c = 0x22 then Some (acc, cs)
      else if c = 0x5C then
        (case escape cs of None \<Rightarrow> None | Some (u, r) \<Rightarrow> texto r (acc @ [u]))
      else if c < 0x20 then None
      else texto cs (acc @ [c]))"
  by pat_completeness auto
termination
  by (relation "measure (\<lambda>(s, acc). length s)") (auto dest: escape_comprimento)

definition fracao :: "jstring \<Rightarrow> (jstring \<times> jstring) option" where
  "fracao s =
     (case s of
        [] \<Rightarrow> Some ([], s)
      | c # cs \<Rightarrow>
          if c = 0x2E then
            (if takeWhile ehDigito cs = [] then None
             else Some (c # takeWhile ehDigito cs, dropWhile ehDigito cs))
          else Some ([], s))"

definition expoente :: "jstring \<Rightarrow> (jstring \<times> jstring) option" where
  "expoente s =
     (case s of
        [] \<Rightarrow> Some ([], s)
      | c # cs \<Rightarrow>
          if c = 0x65 \<or> c = 0x45 then
            (let sinal = (case cs of [] \<Rightarrow> [] | g # _ \<Rightarrow> if g = 0x2B \<or> g = 0x2D then [g] else []);
                 r = drop (length sinal) cs
             in if takeWhile ehDigito r = [] then None
                else Some (c # sinal @ takeWhile ehDigito r, dropWhile ehDigito r))
          else Some ([], s))"

definition numero :: "jstring \<Rightarrow> (jstring \<times> jstring) option" where
  "numero s =
     (let sinal = (case s of [] \<Rightarrow> [] | g # _ \<Rightarrow> if g = 0x2D then [g] else []);
          r = drop (length sinal) s;
          inteiro = (case r of [] \<Rightarrow> [] | z # _ \<Rightarrow> if z = 0x30 then [z] else takeWhile ehDigito r)
      in if inteiro = [] then None
         else
           (case fracao (drop (length inteiro) r) of
              None \<Rightarrow> None
            | Some (f, r1) \<Rightarrow>
                (case expoente r1 of
                   None \<Rightarrow> None
                 | Some (e, r2) \<Rightarrow> Some (sinal @ inteiro @ f @ e, r2))))"

text \<open>
  Property order. \<^verbatim>\<open>JSON.parse\<close> creates the properties of an object in the order of the
  text; a name that occurs again replaces the value and keeps the first position; and
  JavaScript enumerates the names that are array indices (canonical decimal numbers up to
  4294967294) first, in ascending order, before all other names.
\<close>

definition indice :: "jstring \<Rightarrow> int option" where
  "indice k =
     (if k = [] \<or> \<not> list_all ehDigito k \<or> (hd k = 0x30 \<and> length k > 1) then None
      else (let n = foldl (\<lambda>a c. 10 * a + (uint c - 48)) 0 k
            in if n \<le> 4294967294 then Some n else None))"

fun inserirIndice :: "int \<Rightarrow> jstring \<Rightarrow> jsval \<Rightarrow> (jstring \<times> jsval) list \<Rightarrow> (jstring \<times> jsval) list" where
  "inserirIndice n k v [] = [(k, v)]"
| "inserirIndice n k v (p # ps) =
     (case indice (fst p) of
        None \<Rightarrow> (k, v) # p # ps
      | Some i \<Rightarrow> if i < n then p # inserirIndice n k v ps else (k, v) # p # ps)"

fun substituir :: "jstring \<Rightarrow> jsval \<Rightarrow> (jstring \<times> jsval) list \<Rightarrow> (jstring \<times> jsval) list" where
  "substituir k v [] = []"
| "substituir k v (p # ps) = (if fst p = k then (k, v) # ps else p # substituir k v ps)"

definition definir :: "(jstring \<times> jsval) list \<Rightarrow> jstring \<Rightarrow> jsval \<Rightarrow> (jstring \<times> jsval) list" where
  "definir ps k v =
     (if k \<in> set (map fst ps) then substituir k v ps
      else (case indice k of None \<Rightarrow> ps @ [(k, v)] | Some n \<Rightarrow> inserirIndice n k v ps))"

lemma texto_comprimento: "texto s acc = Some (t, r) \<Longrightarrow> length r < length s"
proof (induction s acc rule: texto.induct)
  case (1 acc)
  then show ?case by simp
next
  case (2 c cs acc)
  then show ?case
    by (fastforce split: if_splits option.splits dest: escape_comprimento)
qed

lemma comprimento_semEspaco: "length (semEspaco s) \<le> length s"
  by (simp add: semEspaco_def length_dropWhile_le)

text \<open>
  The three mutually recursive parsers: a value, the elements of an array after its
  opening bracket, the members of an object after its opening brace. The tests
  \<open>length ds < length s\<close> before the two recursive calls that continue after a comma are
  there for the termination proof only: the rest of the text after a value is always
  shorter than the text (lemma \<open>valor_comprimento\<close>), so they never fail, and lemmas
  \<open>elementos_eq\<close> and \<open>membros_eq\<close> state the parsers without them.
\<close>

function valor :: "jstring \<Rightarrow> (jsval \<times> jstring) option"
  and elementos :: "jstring \<Rightarrow> jsval list \<Rightarrow> (jsval list \<times> jstring) option"
  and membros :: "jstring \<Rightarrow> (jstring \<times> jsval) list \<Rightarrow> ((jstring \<times> jsval) list \<times> jstring) option"
where
  "valor s =
     (case s of
        [] \<Rightarrow> None
      | c # cs \<Rightarrow>
          if c = 0x5B then
            (case semEspaco cs of
               [] \<Rightarrow> None
             | d # ds \<Rightarrow>
                 if d = 0x5D then Some (JArr [], ds)
                 else (case elementos (semEspaco cs) [] of
                         None \<Rightarrow> None
                       | Some (vs, r) \<Rightarrow> Some (JArr vs, r)))
          else if c = 0x7B then
            (case semEspaco cs of
               [] \<Rightarrow> None
             | d # ds \<Rightarrow>
                 if d = 0x7D then Some (JObj [], ds)
                 else (case membros (semEspaco cs) [] of
                         None \<Rightarrow> None
                       | Some (ps, r) \<Rightarrow> Some (JObj ps, r)))
          else if c = 0x22 then
            (case texto cs [] of None \<Rightarrow> None | Some (t, r) \<Rightarrow> Some (JStr t, r))
          else if take 4 s = js ''true'' then Some (JBool True, drop 4 s)
          else if take 5 s = js ''false'' then Some (JBool False, drop 5 s)
          else if take 4 s = js ''null'' then Some (JNull, drop 4 s)
          else (case numero s of None \<Rightarrow> None | Some (n, r) \<Rightarrow> Some (JNum n, r)))"
| "elementos s acc =
     (case valor s of
        None \<Rightarrow> None
      | Some (v, r) \<Rightarrow>
          (case semEspaco r of
             [] \<Rightarrow> None
           | d # ds \<Rightarrow>
               if d = 0x5D then Some (acc @ [v], ds)
               else if d = 0x2C \<and> length ds < length s then elementos (semEspaco ds) (acc @ [v])
               else None))"
| "membros s acc =
     (case s of
        [] \<Rightarrow> None
      | q # s1 \<Rightarrow>
          if q \<noteq> 0x22 then None
          else
            (case texto s1 [] of
               None \<Rightarrow> None
             | Some (k, r) \<Rightarrow>
                 (case semEspaco r of
                    [] \<Rightarrow> None
                  | p # r2 \<Rightarrow>
                      if p \<noteq> 0x3A then None
                      else
                        (case valor (semEspaco r2) of
                           None \<Rightarrow> None
                         | Some (v, r3) \<Rightarrow>
                             (case semEspaco r3 of
                                [] \<Rightarrow> None
                              | d # ds \<Rightarrow>
                                  if d = 0x7D then Some (definir acc k v, ds)
                                  else if d = 0x2C \<and> length ds < length s
                                    then membros (semEspaco ds) (definir acc k v)
                                  else None)))))"
  by pat_completeness auto
termination
proof (relation "measure (\<lambda>x. case x of Inl s \<Rightarrow> 2 * length s
                               | Inr (Inl (s, acc)) \<Rightarrow> 2 * length s + 1
                               | Inr (Inr (s, acc)) \<Rightarrow> 2 * length s + 1)", goal_cases)
  case 1 show ?case by simp
next
  case (2 s c cs d ds)
  then show ?case using comprimento_semEspaco [of cs] by simp
next
  case (3 s c cs d ds)
  then show ?case using comprimento_semEspaco [of cs] by simp
next
  case (4 s acc)
  then show ?case by simp
next
  case (5 s acc x v r d ds)
  then show ?case using comprimento_semEspaco [of ds] by simp
next
  case (6 s acc q s1 x k r p r2)
  then show ?case
    using comprimento_semEspaco [of r2] comprimento_semEspaco [of r] texto_comprimento [of s1 "[]" k r]
    by simp
next
  case (7 s acc q s1 x k r p r2 y v r3 d ds)
  then show ?case using comprimento_semEspaco [of ds] by simp
qed

declare valor.simps [simp del] elementos.simps [simp del] membros.simps [simp del]

definition JSON_parse :: "jstring \<Rightarrow> jsval option" where
  "JSON_parse t =
     (case valor (semEspaco t) of
        None \<Rightarrow> None
      | Some (v, r) \<Rightarrow> if semEspaco r = [] then Some v else None)"

subsection \<open>\<^verbatim>\<open>JSON.stringify\<close>\<close>

text \<open>
  The serializer without indentation. A string is quoted as ECMA-262 prescribes
  (QuoteJSONString): the short escapes for backspace, tab, line feed, form feed, carriage
  return, quote and backslash, \<^verbatim>\<open>\uXXXX\<close> in lower-case hexadecimal for the other
  control characters and for a surrogate that is not part of a pair, and every other code
  unit as it is.
\<close>

definition algarismoHexa :: "jschar \<Rightarrow> jschar" where
  "algarismoHexa n = (if n < 10 then 0x30 + n else 0x57 + n)"

definition escapeUnicode :: "jschar \<Rightarrow> jstring" where
  "escapeUnicode c =
     [0x5C, 0x75, algarismoHexa (c div 4096), algarismoHexa (c div 256 mod 16),
      algarismoHexa (c div 16 mod 16), algarismoHexa (c mod 16)]"

fun citar :: "jstring \<Rightarrow> jstring" where
  "citar [] = []"
| "citar (c # cs) =
     (if c = 0x08 then [0x5C, 0x62] @ citar cs
      else if c = 0x09 then [0x5C, 0x74] @ citar cs
      else if c = 0x0A then [0x5C, 0x6E] @ citar cs
      else if c = 0x0C then [0x5C, 0x66] @ citar cs
      else if c = 0x0D then [0x5C, 0x72] @ citar cs
      else if c = 0x22 then [0x5C, 0x22] @ citar cs
      else if c = 0x5C then [0x5C, 0x5C] @ citar cs
      else if c < 0x20 then escapeUnicode c @ citar cs
      else if 0xD800 \<le> c \<and> c \<le> 0xDBFF then
        (case cs of
           [] \<Rightarrow> escapeUnicode c
         | d # ds \<Rightarrow>
             if 0xDC00 \<le> d \<and> d \<le> 0xDFFF then c # d # citar ds
             else escapeUnicode c @ citar cs)
      else if 0xDC00 \<le> c \<and> c \<le> 0xDFFF then escapeUnicode c @ citar cs
      else c # citar cs)"

fun juntar :: "jstring list \<Rightarrow> jstring" where
  "juntar [] = []"
| "juntar [x] = x"
| "juntar (x # y # ys) = x @ 0x2C # juntar (y # ys)"

fun serializar :: "(jstring \<Rightarrow> jstring) \<Rightarrow> jsval \<Rightarrow> jstring" where
  "serializar num JNull = js ''null''"
| "serializar num (JBool b) = (if b then js ''true'' else js ''false'')"
| "serializar num (JNum n) = num n"
| "serializar num (JStr s) = 0x22 # citar s @ [0x22]"
| "serializar num (JArr vs) = 0x5B # juntar (map (serializar num) vs) @ [0x5D]"
| "serializar num (JObj ps) =
     0x7B # juntar (map (\<lambda>p. 0x22 # citar (fst p) @ [0x22, 0x3A] @ serializar num (snd p)) ps)
       @ [0x7D]"

definition JSON_stringify :: "(jstring \<Rightarrow> jstring) \<Rightarrow> jsval \<Rightarrow> jstring" where
  "JSON_stringify num v = serializar num v"

text \<open>
  The values for which the text written by \<^verbatim>\<open>JSON.stringify\<close> is read back as the same
  value whatever the engine does with numbers: no number inside, and objects whose names
  are distinct and are not array indices.
\<close>

fun canonico :: "jsval \<Rightarrow> bool" where
  "canonico JNull = True"
| "canonico (JBool b) = True"
| "canonico (JNum n) = False"
| "canonico (JStr s) = True"
| "canonico (JArr vs) = (\<forall>v \<in> set vs. canonico v)"
| "canonico (JObj ps) =
     (distinct (map fst ps) \<and> (\<forall>p \<in> set ps. indice (fst p) = None \<and> canonico (snd p)))"

section \<open>The appointment store (app.js, lines 37 to 51)\<close>

text \<open>
  The state of the store is the text under the key \<^verbatim>\<open>agenda_demo_barbearia\<close>, or
  \<open>None\<close> when the key has no entry (\<^verbatim>\<open>getItem\<close> answers \<^verbatim>\<open>null\<close>). In
  \<^verbatim>\<open>getItem(...) || '[]'\<close> both \<^verbatim>\<open>null\<close> and the empty text give \<^verbatim>\<open>'[]'\<close>; the
  \<^verbatim>\<open>catch\<close> turns a SyntaxError of \<^verbatim>\<open>JSON.parse\<close> into the empty array. The store is
  assumed to accept every write (no quota error).
\<close>

type_synonym armazenamento = "jstring option"

definition pegarListaDeAgendamentos :: "armazenamento \<Rightarrow> jsval" where
  "pegarListaDeAgendamentos arm =
     (case JSON_parse (case arm of None \<Rightarrow> js ''[]'' | Some t \<Rightarrow> if t = [] then js ''[]'' else t) of
        None \<Rightarrow> JArr []
      | Some v \<Rightarrow> v)"

definition salvarListaDeAgendamentos :: "(jstring \<Rightarrow> jstring) \<Rightarrow> jsval \<Rightarrow> armazenamento" where
  "salvarListaDeAgendamentos num lista = Some (JSON_stringify num lista)"

text \<open>
  The five values the submit handler reads from the form (an element that is missing
  gives the empty text), and the object it builds from them (app.js, lines 204 to 210).
\<close>

record formulario =
  campoNome :: jstring
  campoTelefone :: jstring
  campoServico :: jstring
  campoData :: jstring
  campoHora :: jstring

definition novoAgendamento :: "formulario \<Rightarrow> jsval" where
  "novoAgendamento f =
     JObj [(js ''nome'', JStr (campoNome f)), (js ''telefone'', JStr (campoTelefone f)),
           (js ''servico'', JStr (campoServico f)), (js ''data'', JStr (campoData f)),
           (js ''hora'', JStr (campoHora f))]"

section \<open>Reading a stored value\<close>

text \<open>
  What the source does with the value \<^verbatim>\<open>pegarListaDeAgendamentos\<close> returns. Reading a
  property of \<^verbatim>\<open>null\<close> raises a TypeError; of an object it gives the own property or
  \<^verbatim>\<open>undefined\<close> (\<open>None\<close>); of any other value \<^verbatim>\<open>undefined\<close>. The source reads only
  the names \<^verbatim>\<open>data\<close>, \<^verbatim>\<open>hora\<close>, \<^verbatim>\<open>nome\<close> and \<^verbatim>\<open>servico\<close>, which no prototype
  defines. \<^verbatim>\<open>some\<close>, \<^verbatim>\<open>filter\<close> and \<^verbatim>\<open>map\<close> visit the elements in order and stop at
  the first exception; on a value that is not an array they do not exist, and the call
  raises a TypeError.
\<close>

definition propriedade :: "jsval \<Rightarrow> jstring \<Rightarrow> erro + jsval option" where
  "propriedade x p =
     (case x of
        JNull \<Rightarrow> Inl TypeError
      | JObj ps \<Rightarrow> Inr (map_of ps p)
      | _ \<Rightarrow> Inr None)"

fun algum :: "(jsval \<Rightarrow> erro + bool) \<Rightarrow> jsval list \<Rightarrow> erro + bool" where
  "algum f [] = Inr False"
| "algum f (x # xs) =
     (case f x of
        Inl e \<Rightarrow> Inl e
      | Inr b \<Rightarrow> if b then Inr True else algum f xs)"

fun filtrar :: "(jsval \<Rightarrow> erro + bool) \<Rightarrow> jsval list \<Rightarrow> erro + jsval list" where
  "filtrar f [] = Inr []"
| "filtrar f (x # xs) =
     (case f x of
        Inl e \<Rightarrow> Inl e
      | Inr b \<Rightarrow>
          (case filtrar f xs of
             Inl e \<Rightarrow> Inl e
           | Inr ys \<Rightarrow> Inr (if b then x # ys else ys)))"

fun mapear :: "(jsval \<Rightarrow> erro + 'a) \<Rightarrow> jsval list \<Rightarrow> erro + 'a list" where
  "mapear f [] = Inr []"
| "mapear f (x # xs) =
     (case f x of
        Inl e \<Rightarrow> Inl e
      | Inr y \<Rightarrow> (case mapear f xs of Inl e \<Rightarrow> Inl e | Inr ys \<Rightarrow> Inr (y # ys)))"

definition dataIgual :: "jstring \<Rightarrow> jsval \<Rightarrow> erro + bool" where
  "dataIgual dataISO x =
     (case propriedade x (js ''data'') of
        Inl e \<Rightarrow> Inl e
      | Inr d \<Rightarrow> Inr (d = Some (JStr dataISO)))"

definition dataEHoraIguais :: "jstring \<Rightarrow> jstring \<Rightarrow> jsval \<Rightarrow> erro + bool" where
  "dataEHoraIguais dataISO hora item =
     (case propriedade item (js ''data'') of
        Inl e \<Rightarrow> Inl e
      | Inr d \<Rightarrow>
          if d = Some (JStr dataISO)
          then (case propriedade item (js ''hora'') of
                  Inl e \<Rightarrow> Inl e
                | Inr h \<Rightarrow> Inr (h = Some (JStr hora)))
          else Inr False)"

definition horarioEstaOcupado :: "armazenamento \<Rightarrow> jstring \<Rightarrow> jstring \<Rightarrow> erro + bool" where
  "horarioEstaOcupado arm dataISO hora =
     (case pegarListaDeAgendamentos arm of
        JArr lista \<Rightarrow> algum (dataEHoraIguais dataISO hora) lista
      | _ \<Rightarrow> Inl TypeError)"

section \<open>Customer page: the list of times (app.js, lines 95 to 154)\<close>

text \<open>
  \<^verbatim>\<open>atualizarListaDeHorarios\<close> rewrites the options of the select \<^verbatim>\<open>#hora\<close> and the
  message. The model keeps what it renders, not the fixed texts: one of the three
  notices, or the fixed times each with its disabled flag and the number of occupied
  entries the message reports. \<open>selectHora\<close> says whether the element exists; without it
  the function returns at once (\<open>Inr None\<close>).
\<close>

datatype horarios = SemData | ForaDoPeriodo | DomingoBloqueado
  | Horarios "(jstring \<times> bool) list" nat

definition atualizarListaDeHorarios ::
  "(jstring \<Rightarrow> int option) \<Rightarrow> bool \<Rightarrow> armazenamento \<Rightarrow> jstring \<Rightarrow> erro + horarios option" where
  "atualizarListaDeHorarios outros selectHora arm dataISO =
     (if \<not> selectHora then Inr None
      else if dataISO = [] then Inr (Some SemData)
      else if \<not> dataEstaDentroDoPeriodoPermitido outros dataISO then Inr (Some ForaDoPeriodo)
      else if ehDomingo outros dataISO then Inr (Some DomingoBloqueado)
      else
        (case pegarListaDeAgendamentos arm of
           JArr lista \<Rightarrow>
             (case filtrar (dataIgual dataISO) lista of
                Inl e \<Rightarrow> Inl e
              | Inr doDia \<Rightarrow>
                  (case mapear (\<lambda>x. propriedade x (js ''hora'')) doDia of
                     Inl e \<Rightarrow> Inl e
                   | Inr ocupados \<Rightarrow>
                       Inr (Some (Horarios
                         (map (\<lambda>h. (h, Some (JStr h) \<in> set ocupados)) LISTA_DE_HORARIOS_FIXOS)
                         (length ocupados)))))
         | _ \<Rightarrow> Inl TypeError))"

section \<open>Customer page: the submit handler (app.js, lines 174 to 226)\<close>

text \<open>
  The handler reads the five fields, runs the four checks in the order of the source and
  either stops at the first that fails or appends the new appointment and saves. Its
  effects are collected in a record: the alerts shown, the store afterwards, whether the
  form was reset, what the refresh of the list of times rendered, and the exception the
  handler ended with, if any. Where the handler calls \<^verbatim>\<open>atualizarListaDeHorarios\<close> the
  field \<^verbatim>\<open>hora\<close> is not empty, so the select it came from exists.
\<close>

definition MSG_CAMPOS :: jstring where
  "MSG_CAMPOS = js ''Preencha todos os campos obrigat'' @ [0xF3]
     @ js ''rios (nome, telefone, data e hora).''"

definition MSG_PERIODO :: jstring where
  "MSG_PERIODO = js ''Escolha uma data em Outubro, Novembro ou Dezembro de 2025.''"

definition MSG_DOMINGO :: jstring where
  "MSG_DOMINGO = js ''Domingos n'' @ [0xE3] @ js ''o s'' @ [0xE3]
     @ js ''o permitidos. Escolha outra data.''"

definition MSG_OCUPADO :: jstring where
  "MSG_OCUPADO = js ''Esse hor'' @ [0xE1] @ js ''rio j'' @ [0xE1] @ js '' est'' @ [0xE1]
     @ js '' ocupado. Escolha outro hor'' @ [0xE1] @ js ''rio.''"

definition MSG_SALVO :: jstring where
  "MSG_SALVO = js ''Agendamento salvo com sucesso!''"

record efeito =
  alertas :: "jstring list"
  armazenado :: armazenamento
  formularioLimpo :: bool
  listaDeHorarios :: "horarios option"
  excecao :: "erro option"

definition parado :: "armazenamento \<Rightarrow> efeito" where
  "parado arm = \<lparr>alertas = [], armazenado = arm, formularioLimpo = False,
                  listaDeHorarios = None, excecao = None\<rparr>"

definition aoEnviar ::
  "(jstring \<Rightarrow> int option) \<Rightarrow> (jstring \<Rightarrow> jstring) \<Rightarrow> formulario \<Rightarrow> armazenamento \<Rightarrow> efeito" where
  "aoEnviar outros num f arm =
     (let inicio = parado arm
      in if campoNome f = [] \<or> campoTelefone f = [] \<or> campoData f = [] \<or> campoHora f = []
         then inicio\<lparr>alertas := [MSG_CAMPOS]\<rparr>
         else if \<not> dataEstaDentroDoPeriodoPermitido outros (campoData f)
         then inicio\<lparr>alertas := [MSG_PERIODO]\<rparr>
         else if ehDomingo outros (campoData f)
         then inicio\<lparr>alertas := [MSG_DOMINGO]\<rparr>
         else
           (case horarioEstaOcupado arm (campoData f) (campoHora f) of
              Inl e \<Rightarrow> inicio\<lparr>excecao := Some e\<rparr>
            | Inr True \<Rightarrow>
                (case atualizarListaDeHorarios outros True arm (campoData f) of
                   Inl e \<Rightarrow> inicio\<lparr>alertas := [MSG_OCUPADO], excecao := Some e\<rparr>
                 | Inr h \<Rightarrow> inicio\<lparr>alertas := [MSG_OCUPADO], listaDeHorarios := h\<rparr>)
            | Inr False \<Rightarrow>
                (case pegarListaDeAgendamentos arm of
                   JArr listaAtual \<Rightarrow>
                     (let novo = salvarListaDeAgendamentos num (JArr (listaAtual @ [novoAgendamento f]));
                          salvo = \<lparr>alertas = [MSG_SALVO], armazenado = novo, formularioLimpo = True,
                                    listaDeHorarios = None, excecao = None\<rparr>
                      in case atualizarListaDeHorarios outros True novo (campoData f) of
                           Inl e \<Rightarrow> salvo\<lparr>excecao := Some e\<rparr>
                         | Inr h \<Rightarrow> salvo\<lparr>listaDeHorarios := h\<rparr>)
                 | _ \<Rightarrow> inicio\<lparr>excecao := Some TypeError\<rparr>)))"

text \<open>Submissions one after the other, each on the store the previous one left.\<close>

fun enviarTodos ::
  "(jstring \<Rightarrow> int option) \<Rightarrow> (jstring \<Rightarrow> jstring) \<Rightarrow> formulario list \<Rightarrow> armazenamento \<Rightarrow> armazenamento" where
  "enviarTodos outros num [] arm = arm"
| "enviarTodos outros num (f # fs) arm = enviarTodos outros num fs (armazenado (aoEnviar outros num f arm))"

section \<open>Administration panel: month navigation (app.js, lines 235 to 248)\<close>

text \<open>
  \<^verbatim>\<open>mesAtualExibido\<close> is the only state \<^verbatim>\<open>mudarMesAtual\<close> writes. The function is passed the
  variable's current value and returns the new one. When the month changes the source
  calls \<^verbatim>\<open>window.mostrarCalendarioAdministrador\<close>, after the assignment; the callback is
  the parameter \<open>render\<close>, which receives the month now displayed and answers \<open>None\<close>
  when it returns and \<open>Some e\<close> when it raises \<open>e\<close>. The second component of the
  result is what the call to \<^verbatim>\<open>mudarMesAtual\<close> raises, if anything.
\<close>

definition mesInicial :: int where
  "mesInicial = 9"

definition mudarMesAtual :: "(int \<Rightarrow> erro option) \<Rightarrow> int \<Rightarrow> int \<Rightarrow> int \<times> erro option" where
  "mudarMesAtual render delta mesAtualExibido =
     (let novo = mesAtualExibido + delta
      in if novo \<in> set MESES_PERMITIDOS then (novo, render novo)
         else (mesAtualExibido, None))"

section \<open>Administration panel: the appointments of a day (app.js, lines 315 to 338)\<close>

text \<open>
  \<^verbatim>\<open>indexOf\<close> compares with \<^verbatim>\<open>===\<close> and answers -1 when nothing matches. The comparator
  of the \<^verbatim>\<open>sort\<close> is the difference of two such positions, a consistent order, and
  \<^verbatim>\<open>Array.prototype.sort\<close> is stable: the result is the stable sort by the position.
  An item that passed the filter has an own property \<^verbatim>\<open>data\<close>, so reading its
  \<^verbatim>\<open>hora\<close> raises nothing.
\<close>

fun indexOf :: "jstring list \<Rightarrow> jsval option \<Rightarrow> int" where
  "indexOf [] v = -1"
| "indexOf (h # hs) v =
     (if v = Some (JStr h) then 0
      else (let i = indexOf hs v in if i < 0 then -1 else i + 1))"

definition horaDe :: "jsval \<Rightarrow> jsval option" where
  "horaDe x = (case propriedade x (js ''hora'') of Inl e \<Rightarrow> None | Inr h \<Rightarrow> h)"

definition posicao :: "jsval \<Rightarrow> int" where
  "posicao x = indexOf LISTA_DE_HORARIOS_FIXOS (horaDe x)"

definition agendamentosDoDia :: "armazenamento \<Rightarrow> jstring \<Rightarrow> erro + jsval list" where
  "agendamentosDoDia arm dataISO =
     (case pegarListaDeAgendamentos arm of
        JArr xs \<Rightarrow>
          (case filtrar (dataIgual dataISO) xs of
             Inl e \<Rightarrow> Inl e
           | Inr doDia \<Rightarrow> Inr (sort_key posicao doDia))
      | _ \<Rightarrow> Inl TypeError)"

text \<open>
  A template literal converts each interpolated value to a text: \<^verbatim>\<open>undefined\<close> and
  \<^verbatim>\<open>null\<close> by name, a text as it is, an array as its elements joined by commas (with
  \<^verbatim>\<open>null\<close> as the empty text), an object as \<^verbatim>\<open>[object Object]\<close>, unless it has an own
  property \<^verbatim>\<open>toString\<close>, which parsed JSON never makes callable: then the conversion
  raises a TypeError. A number is converted by the engine's Number-to-text conversion,
  which is the parameter \<open>txt\<close> (from the text of the literal to the text shown).
  It is not the conversion of \<^verbatim>\<open>JSON.stringify\<close>, the parameter \<open>num\<close> of the
  serializer: for the literal \<^verbatim>\<open>1e999\<close> a template literal shows \<^verbatim>\<open>Infinity\<close> where
  \<^verbatim>\<open>JSON.stringify\<close> writes \<^verbatim>\<open>null\<close>.
\<close>

fun sequencia :: "(erro + 'a) list \<Rightarrow> erro + 'a list" where
  "sequencia [] = Inr []"
| "sequencia (x # xs) =
     (case x of
        Inl e \<Rightarrow> Inl e
      | Inr y \<Rightarrow> (case sequencia xs of Inl e \<Rightarrow> Inl e | Inr ys \<Rightarrow> Inr (y # ys)))"

fun paraTexto :: "(jstring \<Rightarrow> jstring) \<Rightarrow> jsval \<Rightarrow> erro + jstring" where
  "paraTexto txt JNull = Inr (js ''null'')"
| "paraTexto txt (JBool b) = Inr (if b then js ''true'' else js ''false'')"
| "paraTexto txt (JNum n) = Inr (txt n)"
| "paraTexto txt (JStr s) = Inr s"
| "paraTexto txt (JArr vs) =
     (case sequencia (map (\<lambda>v. if v = JNull then Inr [] else paraTexto txt v) vs) of
        Inl e \<Rightarrow> Inl e
      | Inr ts \<Rightarrow> Inr (juntar ts))"
| "paraTexto txt (JObj ps) =
     (if js ''toString'' \<in> set (map fst ps) then Inl TypeError else Inr (js ''[object Object]''))"

definition interpolar :: "(jstring \<Rightarrow> jstring) \<Rightarrow> jsval option \<Rightarrow> erro + jstring" where
  "interpolar txt v = (case v of None \<Rightarrow> Inr (js ''undefined'') | Some x \<Rightarrow> paraTexto txt x)"

definition linha :: "(jstring \<Rightarrow> jstring) \<Rightarrow> jsval \<Rightarrow> erro + jstring" where
  "linha txt item =
     (case propriedade item (js ''hora'') of
        Inl e \<Rightarrow> Inl e
      | Inr h \<Rightarrow>
     (case interpolar txt h of
        Inl e \<Rightarrow> Inl e
      | Inr hora \<Rightarrow>
     (case propriedade item (js ''nome'') of
        Inl e \<Rightarrow> Inl e
      | Inr n \<Rightarrow>
     (case interpolar txt n of
        Inl e \<Rightarrow> Inl e
      | Inr nome \<Rightarrow>
     (case propriedade item (js ''servico'') of
        Inl e \<Rightarrow> Inl e
      | Inr s \<Rightarrow>
     (case interpolar txt s of
        Inl e \<Rightarrow> Inl e
      | Inr servico \<Rightarrow>
          Inr (js ''<tr><td>'' @ hora @ js ''</td><td>'' @ nome @ js ''</td><td>'' @ servico
               @ js ''</td></tr>'')))))))"

definition cabecalho :: "jstring \<Rightarrow> jstring" where
  "cabecalho dataISO = js ''<h4>Agendamentos em '' @ dataISO @ js ''</h4>''"

definition htmlVazio :: "jstring \<Rightarrow> jstring" where
  "htmlVazio dataISO = cabecalho dataISO @ js ''<p>Nenhum agendamento neste dia.</p>''"

definition htmlTabela :: "jstring \<Rightarrow> jstring list \<Rightarrow> jstring" where
  "htmlTabela dataISO linhas =
     cabecalho dataISO
     @ js ''<table><thead><tr><th>Hora</th><th>Cliente</th><th>Servi'' @ [0xE7]
     @ js ''o</th></tr></thead><tbody>''
     @ concat linhas @ js ''</tbody></table>''"

text \<open>
  The result is the HTML the function assigns to the element \<^verbatim>\<open>#day-details\<close>, or
  \<open>None\<close> when the element does not exist (\<open>caixa\<close> false) and the function returns
  at once.
\<close>

definition mostrarDetalhesDoDia ::
  "(jstring \<Rightarrow> jstring) \<Rightarrow> bool \<Rightarrow> armazenamento \<Rightarrow> jstring \<Rightarrow> erro + jstring option" where
  "mostrarDetalhesDoDia txt caixa arm dataISO =
     (if \<not> caixa then Inr None
      else
        (case agendamentosDoDia arm dataISO of
           Inl e \<Rightarrow> Inl e
         | Inr lista \<Rightarrow>
             if lista = [] then Inr (Some (htmlVazio dataISO))
             else (case mapear (linha txt) lista of
                     Inl e \<Rightarrow> Inl e
                   | Inr linhas \<Rightarrow> Inr (Some (htmlTabela dataISO linhas)))))"

section \<open>Notions used in the statements\<close>

text \<open>
  A store whose content loads as an array without \<^verbatim>\<open>null\<close> elements; every store the
  application itself has written is one.
\<close>

definition listaSemNulos :: "armazenamento \<Rightarrow> bool" where
  "listaSemNulos arm = (case pegarListaDeAgendamentos arm of JArr xs \<Rightarrow> JNull \<notin> set xs | _ \<Rightarrow> False)"

text \<open>
  For an appointment: the position of its time in the fixed list, as the sort of
  \<^verbatim>\<open>mostrarDetalhesDoDia\<close> computes it, and its row of the table.
\<close>

definition indiceDaHora :: "formulario \<Rightarrow> int" where
  "indiceDaHora a = indexOf LISTA_DE_HORARIOS_FIXOS (Some (JStr (campoHora a)))"

definition linhaDe :: "formulario \<Rightarrow> jstring" where
  "linhaDe a = js ''<tr><td>'' @ campoHora a @ js ''</td><td>'' @ campoNome a @ js ''</td><td>''
     @ campoServico a @ js ''</td></tr>''"

text \<open>
  The scenario of the specification: Ana books Monday 6 October 2025 at 09:00; the store
  after that booking; and a day with three bookings entered out of order, one of them at
  a time that is not in the fixed list, next to a booking on another day.
\<close>

definition cenarioAna :: formulario where
  "cenarioAna = \<lparr>campoNome = js ''Ana'', campoTelefone = js ''111'', campoServico = js ''Corte'',
                  campoData = js ''2025-10-06'', campoHora = js ''09:00''\<rparr>"

definition cenarioArmazenado :: armazenamento where
  "cenarioArmazenado = salvarListaDeAgendamentos (\<lambda>n. n) (JArr (map novoAgendamento [cenarioAna]))"

definition cenarioDoDia :: "formulario list" where
  "cenarioDoDia =
     [cenarioAna\<lparr>campoHora := js ''10:00''\<rparr>, cenarioAna\<lparr>campoNome := js ''Bia''\<rparr>,
      cenarioAna\<lparr>campoNome := js ''Caio'', campoHora := js ''08:30''\<rparr>,
      cenarioAna\<lparr>campoNome := js ''Duda'', campoData := js ''2025-10-07''\<rparr>]"

text \<open>
  Stored content that is valid JSON but not a list of appointments: the list of Ana's
  booking followed by \<^verbatim>\<open>null\<close>.
\<close>

definition cenarioComNulo :: armazenamento where
  "cenarioComNulo = Some (js ''[{\"nome\":\"Ana\",\"telefone\":\"111\",\"servico\":\"Corte\",\"data\":\"2025-10-06\",\"hora\":\"09:00\"},null]'')"

section \<open>The calendar arithmetic is the calendar\<close>

lemma div_bounds:
  fixes a n :: int
  assumes "0 < n"
  shows "n * (a div n) \<le> a \<and> a < n * (a div n) + n"
proof -
  have "n * (a div n) + a mod n = a" by (rule mult_div_mod_eq)
  moreover have "0 \<le> a mod n" "a mod n < n" using assms by simp_all
  ultimately show ?thesis by linarith
qed

lemma DayFromYear_approx:
  "146097 * (y - 1970) - 607 \<le> 400 * DayFromYear y \<and> 400 * DayFromYear y \<le> 146097 * (y - 1970) + 593"
proof -
  define a where "a = (y - 1969) div 4"
  define b where "b = (y - 1901) div 100"
  define c where "c = (y - 1601) div 400"
  have "4 * a \<le> y - 1969 \<and> y - 1969 < 4 * a + 4"
    unfolding a_def by (rule div_bounds) simp
  moreover have "100 * b \<le> y - 1901 \<and> y - 1901 < 100 * b + 100"
    unfolding b_def by (rule div_bounds) simp
  moreover have "400 * c \<le> y - 1601 \<and> y - 1601 < 400 * c + 400"
    unfolding c_def by (rule div_bounds) simp
  moreover have "DayFromYear y = 365 * (y - 1970) + a - b + c"
    by (simp add: DayFromYear_def a_def b_def c_def)
  ultimately show ?thesis by simp
qed

lemma YearFromDay_spec:
  "DayFromYear (YearFromDay t) \<le> t \<and> t < DayFromYear (YearFromDay t + 1)"
proof -
  define y where "y = 1970 + (400 * t) div 146097"
  have q: "146097 * (y - 1970) \<le> 400 * t \<and> 400 * t < 146097 * (y - 1970) + 146097"
    using div_bounds [of 146097 "400 * t"] by (simp add: y_def)
  note a0 = DayFromYear_approx [of "y - 1"] 
  note a2 = DayFromYear_approx [of "y + 2"]
  have r: "YearFromDay t = (if t < DayFromYear y then y - 1
         else if DayFromYear (y + 1) \<le> t then y + 1 else y)"
    by (simp add: YearFromDay_def y_def Let_def)
  show ?thesis
  proof (cases "t < DayFromYear y")
    case True
    then show ?thesis using r q a0 by simp
  next
    case False
    note nlt = this
    show ?thesis
    proof (cases "DayFromYear (y + 1) \<le> t")
      case True
      have "y + 1 + 1 = y + 2" by simp
      then show ?thesis using r q a2 nlt True by (simp add: add.commute)
    next
      case False
      then show ?thesis using r nlt by simp
    qed
  qed
qed

lemma DayFromYear_mono:
  assumes "y \<le> z"
  shows "DayFromYear y \<le> DayFromYear z"
proof -
  have "(y - 1969) div 4 \<le> (z - 1969) div 4" using assms by (intro zdiv_mono1) simp_all
  moreover have "(y - 1601) div 400 \<le> (z - 1601) div 400" using assms by (intro zdiv_mono1) simp_all
  moreover have "100 * ((y - 1901) div 100) \<le> y - 1901 \<and> y - 1901 < 100 * ((y - 1901) div 100) + 100"
    by (rule div_bounds) simp
  moreover have "100 * ((z - 1901) div 100) \<le> z - 1901 \<and> z - 1901 < 100 * ((z - 1901) div 100) + 100"
    by (rule div_bounds) simp
  ultimately show ?thesis using assms unfolding DayFromYear_def by simp
qed

lemma YearFromDay_unique:
  assumes "DayFromYear y \<le> t" and "t < DayFromYear (y + 1)"
  shows "YearFromDay t = y"
proof (rule ccontr)
  assume ne: "YearFromDay t \<noteq> y"
  note s = YearFromDay_spec [of t]
  show False
  proof (cases "YearFromDay t < y")
    case True
    then have "DayFromYear (YearFromDay t + 1) \<le> DayFromYear y" by (intro DayFromYear_mono) simp
    then show False using s assms by simp
  next
    case False
    then have "DayFromYear (y + 1) \<le> DayFromYear (YearFromDay t)" using ne by (intro DayFromYear_mono) simp
    then show False using s assms by simp
  qed
qed

lemma div_succ_gen:
  fixes a n :: int
  assumes "0 < n"
  shows "(a + 1) div n = (if n dvd (a + 1) then a div n + 1 else a div n)"
proof (cases "n dvd (a + 1)")
  case True
  then obtain k where k: "a + 1 = n * k" by (auto simp: dvd_def)
  have "a = n * (k - 1) + (n - 1)" using k by (simp add: algebra_simps)
  then have "a div n = k - 1" using assms int_div_pos_eq [of a n "k - 1" "n - 1"] by simp
  moreover have "(a + 1) div n = k" using k assms by simp
  ultimately show ?thesis using True by simp
next
  case False
  define r where "r = (a + 1) mod n"
  define q where "q = (a + 1) div n"
  have "r \<noteq> 0" using False unfolding r_def by (metis mod_eq_0_iff_dvd)
  moreover have "0 \<le> r" "r < n" using assms by (simp_all add: r_def)
  moreover have "a + 1 = n * q + r" by (simp add: q_def r_def)
  ultimately have "a = n * q + (r - 1)" "0 \<le> r - 1" "r - 1 < n" by simp_all
  then have "a div n = q" using int_div_pos_eq [of a n q "r - 1"] by simp
  then show ?thesis using False by (simp add: q_def)
qed

lemma dvd_shift:
  fixes y :: int
  shows "4 dvd (y - 1968) \<longleftrightarrow> 4 dvd y" "100 dvd (y - 1900) \<longleftrightarrow> 100 dvd y"
    "400 dvd (y - 1600) \<longleftrightarrow> 400 dvd y"
  using dvd_diff_left_iff [of 4 1968 y] dvd_diff_left_iff [of 100 1900 y]
    dvd_diff_left_iff [of 400 1600 y]
  by simp_all

lemma DaysInYear_dvd:
  "DaysInYear y = 365 + (if 4 dvd y then 1 else 0) - (if 100 dvd y then 1 else 0)
     + (if 400 dvd y then 1 else 0)"
proof -
  have "(4::int) dvd 100" "(100::int) dvd 400" by simp_all
  then have "100 dvd y \<Longrightarrow> 4 dvd y" "400 dvd y \<Longrightarrow> 100 dvd y"
    using dvd_trans by blast+
  then show ?thesis by (auto simp: DaysInYear_def)
qed

lemma DayFromYear_step: "DayFromYear (y + 1) = DayFromYear y + DaysInYear y"
proof -
  have a: "(y + 1 - 1969) div 4 = (y - 1969) div 4 + (if 4 dvd y then 1 else 0)"
    using div_succ_gen [of 4 "y - 1969"] dvd_shift(1) [of y] by (simp add: algebra_simps)
  have b: "(y + 1 - 1901) div 100 = (y - 1901) div 100 + (if 100 dvd y then 1 else 0)"
    using div_succ_gen [of 100 "y - 1901"] dvd_shift(2) [of y] by (simp add: algebra_simps)
  have c: "(y + 1 - 1601) div 400 = (y - 1601) div 400 + (if 400 dvd y then 1 else 0)"
    using div_succ_gen [of 400 "y - 1601"] dvd_shift(3) [of y] by (simp add: algebra_simps)
  show ?thesis unfolding DayFromYear_def DaysInYear_dvd a b c by simp
qed

lemma DayFromYear_2025: "DayFromYear 2025 = 20089" "DayFromYear 2026 = 20454"
  by (simp_all add: DayFromYear_def)

lemma periodo_em_dias:
  "(YearFromDay t = 2025 \<and> MonthFromDay t \<in> {9, 10, 11}) \<longleftrightarrow> (20362 \<le> t \<and> t \<le> 20453)"
proof
  assume h: "YearFromDay t = 2025 \<and> MonthFromDay t \<in> {9, 10, 11}"
  then have y: "YearFromDay t = 2025" by simp
  have r: "20089 \<le> t \<and> t < 20454"
    using YearFromDay_spec [of t] y DayFromYear_2025 by simp
  have "DaysInYear 2025 = 365" by (simp add: DaysInYear_def)
  then have "273 \<le> t - 20089"
    using h by (simp add: MonthFromDay_def DayWithinYear_def InLeapYear_def DayFromYear_2025 Let_def split: if_splits)
  then show "20362 \<le> t \<and> t \<le> 20453" using r by simp
next
  assume h: "20362 \<le> t \<and> t \<le> 20453"
  have y: "YearFromDay t = 2025"
    using h DayFromYear_2025 by (intro YearFromDay_unique) simp_all
  have "DaysInYear 2025 = 365" by (simp add: DaysInYear_def)
  then show "YearFromDay t = 2025 \<and> MonthFromDay t \<in> {9, 10, 11}"
    using h y by (simp add: MonthFromDay_def DayWithinYear_def InLeapYear_def DayFromYear_2025 Let_def)
qed

lemma mes_casos: "1 \<le> m \<Longrightarrow> m \<le> 12 \<Longrightarrow>
  m = 1 \<or> m = 2 \<or> m = 3 \<or> m = 4 \<or> m = 5 \<or> m = 6 \<or> m = 7 \<or> m = 8 \<or> m = 9 \<or> m = 10 \<or> m = 11 \<or> m = (12::nat)"
  by arith

lemma DaysInYear_casos: "DaysInYear y = 365 \<or> DaysInYear y = 366"
  by (simp add: DaysInYear_def)

lemma dataValida_casos:
  assumes "dataValida y m d"
  shows "m = 1 \<or> m = 2 \<or> m = 3 \<or> m = 4 \<or> m = 5 \<or> m = 6 \<or> m = 7 \<or> m = 8 \<or> m = 9 \<or> m = 10 \<or> m = 11 \<or> m = 12"
  using assms mes_casos [of m] by (simp add: dataValida_def)

lemma diasAntesDoMes_limites:
  assumes "dataValida y m d"
  shows "0 \<le> diasAntesDoMes y m + int d - 1 \<and> diasAntesDoMes y m + int d - 1 < DaysInYear y"
  using dataValida_casos [OF assms] DaysInYear_casos [of y] assms
  unfolding dataValida_def
  by - (elim conjE disjE; simp add: diasAntesDoMes_def DaysInMonth_def)

lemma YearFromDay_MakeDay:
  assumes "dataValida y m d"
  shows "YearFromDay (MakeDay y m d) = y"
  using diasAntesDoMes_limites [OF assms] DayFromYear_step [of y]
  by (intro YearFromDay_unique) (simp_all add: MakeDay_def)

lemma MonthFromDay_MakeDay:
  assumes "dataValida y m d"
  shows "MonthFromDay (MakeDay y m d) = int m - 1"
proof -
  have w: "DayWithinYear (MakeDay y m d) = diasAntesDoMes y m + int d - 1"
    unfolding DayWithinYear_def YearFromDay_MakeDay [OF assms] by (simp add: MakeDay_def)
  have l: "InLeapYear (MakeDay y m d) = (if DaysInYear y = 366 then 1 else 0)"
    by (simp add: InLeapYear_def YearFromDay_MakeDay [OF assms])
  show ?thesis
    using dataValida_casos [OF assms] DaysInYear_casos [of y] assms
    unfolding dataValida_def MonthFromDay_def w l
    by - (elim conjE disjE; simp add: diasAntesDoMes_def DaysInMonth_def)
qed

subsection \<open>Date texts are read back\<close>

lemma unat_pequeno: "n < 65536 \<Longrightarrow> unat (of_nat n :: 16 word) = n"
  by (simp only: unat_of_nat) simp

lemma digito_algarismo: "digito (algarismo k) = Some (k mod 10)"
proof -
  define n where "n = 48 + k mod 10"
  have b: "48 \<le> n" "n \<le> 57" by (simp_all add: n_def)
  then have u: "unat (of_nat n :: 16 word) = n" by (intro unat_pequeno) simp
  have "(0x30 :: 16 word) \<le> of_nat n" "(of_nat n :: 16 word) \<le> 0x39"
    using u b by (simp_all add: word_le_nat_alt)
  then show ?thesis using u unfolding digito_def algarismo_def n_def [symmetric]
    by (simp add: n_def)
qed

lemma dec2: "m < 100 \<Longrightarrow> 10 * (m div 10 mod 10) + m mod 10 = (m::nat)"
proof -
  assume "m < 100"
  then have "m div 10 < 10" by simp
  then show ?thesis by simp
qed

lemma dec4:
  assumes "y < 10000"
  shows "10 * (10 * (10 * (y div 1000 mod 10) + y div 100 mod 10) + y div 10 mod 10) + y mod 10 = (y::nat)"
proof -
  have a: "y div 1000 < 10" using assms by simp
  have b: "y div 100 = 10 * (y div 1000) + y div 100 mod 10"
    using div_mult_mod_eq [of "y div 100" 10] by (simp add: div_mult2_eq [symmetric])
  have c: "y div 10 = 10 * (y div 100) + y div 10 mod 10"
    using div_mult_mod_eq [of "y div 10" 10] by (simp add: div_mult2_eq [symmetric])
  have d: "y = 10 * (y div 10) + y mod 10" by simp
  show ?thesis using a b c d by simp
qed


lemma camposDaData_textoISO:
  assumes "y < 10000" "m < 100" "d < 100"
  shows "camposDaData (textoISO y m d @ js ''T00:00:00'') = Some (y, m, d)"
  using dec4 [OF assms(1)] dec2 [OF assms(2)] dec2 [OF assms(3)]
  by (simp add: camposDaData_def textoISO_def digito_algarismo js_def)

lemma DaysInMonth_le: "DaysInMonth y m \<le> 31"
  by (simp add: DaysInMonth_def)

lemma Date_parse_textoISO:
  assumes "y < 10000" "dataValida (int y) m d"
  shows "Date_parse outros (textoISO y m d @ js ''T00:00:00'') = Some (MakeDay (int y) m d)"
proof -
  have "m < 100" "d < 100"
    using assms(2) DaysInMonth_le [of "int y" m] by (simp_all add: dataValida_def)
  then show ?thesis
    using assms by (simp add: Date_parse_def camposDaData_textoISO)
qed

lemma MakeDay_limites: "MakeDay 2025 10 1 = 20362" "MakeDay 2025 10 (Suc 0) = 20362"
  "MakeDay 2025 12 31 = 20453" "MakeDay 2025 10 5 = 20366"
  by (simp_all add: MakeDay_def DayFromYear_def diasAntesDoMes_def DaysInYear_def)

lemma WeekDay_domingo: "WeekDay t = 0 \<longleftrightarrow> 7 dvd (t - MakeDay 2025 10 5)"
proof -
  have "7 dvd (7 * 2910 + (t - 20366)) \<longleftrightarrow> 7 dvd (t - 20366)"
    by (rule dvd_add_right_iff) simp
  moreover have "7 * 2910 + (t - 20366) = t + 4" by simp
  ultimately have "7 dvd (t + 4) \<longleftrightarrow> 7 dvd (t - 20366)" by (simp add: add.commute)
  then show ?thesis by (simp add: WeekDay_def MakeDay_limites mod_eq_0_iff_dvd)
qed

section \<open>The parser consumes what it reads\<close>

lemma fracao_comprimento: "fracao s = Some (f, r) \<Longrightarrow> length r \<le> length s"
  using length_dropWhile_le [of ehDigito "tl s"]
  by (auto simp: fracao_def split: list.splits if_splits)

lemma expoente_comprimento: "expoente s = Some (f, r) \<Longrightarrow> length r \<le> length s"
proof (cases s)
  case Nil
  then show "expoente s = Some (f, r) \<Longrightarrow> length r \<le> length s" by (simp add: expoente_def)
next
  case (Cons c cs)
  assume a: "expoente s = Some (f, r)"
  show "length r \<le> length s"
  proof (cases "c = 0x65 \<or> c = 0x45")
    case False
    then show ?thesis using a Cons by (auto simp: expoente_def)
  next
    case True
    then obtain k where "r = dropWhile ehDigito (drop k cs)"
      using a Cons by (auto simp: expoente_def Let_def split: if_splits)
    then have "length r \<le> length (drop k cs)"
      using length_dropWhile_le [of ehDigito "drop k cs"] by simp
    then show ?thesis using Cons by simp
  qed
qed

lemma numero_comprimento:
  assumes "numero s = Some (n, r)"
  shows "length r < length s"
proof -
  define sinal where "sinal = (case s of [] \<Rightarrow> [] | g # _ \<Rightarrow> if g = 0x2D then [g] else [])"
  define r0 where "r0 = drop (length sinal) s"
  define inteiro where "inteiro = (case r0 of [] \<Rightarrow> [] | z # _ \<Rightarrow> if z = 0x30 then [z] else takeWhile ehDigito r0)"
  have u: "numero s = (if inteiro = [] then None
         else
           (case fracao (drop (length inteiro) r0) of
              None \<Rightarrow> None
            | Some (f, r1) \<Rightarrow>
                (case expoente r1 of
                   None \<Rightarrow> None
                 | Some (e, r2) \<Rightarrow> Some (sinal @ inteiro @ f @ e, r2))))"
    unfolding numero_def sinal_def r0_def inteiro_def Let_def by (rule refl)
  have ne: "inteiro \<noteq> []" using assms u by (auto split: if_splits)
  then obtain f r1 e where f: "fracao (drop (length inteiro) r0) = Some (f, r1)"
    and e: "expoente r1 = Some (e, r)"
    using assms u by (auto split: if_splits option.splits)
  have "length inteiro \<le> length r0"
    by (auto simp: inteiro_def length_takeWhile_le split: list.splits)
  moreover have "0 < length inteiro" using ne by (cases inteiro) simp_all
  ultimately have "length (drop (length inteiro) r0) < length r0" by (simp del: length_greater_0_conv)
  moreover have "length r0 \<le> length s" by (simp add: r0_def)
  ultimately show ?thesis
    using fracao_comprimento [OF f] expoente_comprimento [OF e] by simp
qed

lemma take_literal: "take n s = t \<Longrightarrow> length t = n \<Longrightarrow> 0 < n \<Longrightarrow> length (drop n s) < length s"
  by (metis diff_less length_drop length_greater_0_conv length_take list.size(3) min.absorb4 min_def not_less take_eq_Nil)


lemma semEspaco_Cons: "semEspaco s = d # ds \<Longrightarrow> length ds < length s"
  using comprimento_semEspaco [of s] by simp

lemma valor_Nil: "valor [] = None"
  by (simp add: valor.simps [of "[]"])

lemma valor_colchete:
  "valor (0x5B # cs) =
     (case semEspaco cs of
        [] \<Rightarrow> None
      | d # ds \<Rightarrow>
          if d = 0x5D then Some (JArr [], ds)
          else (case elementos (semEspaco cs) [] of
                  None \<Rightarrow> None
                | Some (vs, r) \<Rightarrow> Some (JArr vs, r)))"
  by (simp add: valor.simps [of "0x5B # cs"])

lemma valor_chave:
  "valor (0x7B # cs) =
     (case semEspaco cs of
        [] \<Rightarrow> None
      | d # ds \<Rightarrow>
          if d = 0x7D then Some (JObj [], ds)
          else (case membros (semEspaco cs) [] of
                  None \<Rightarrow> None
                | Some (ps, r) \<Rightarrow> Some (JObj ps, r)))"
  by (simp add: valor.simps [of "0x7B # cs"])

lemma valor_aspas:
  "valor (0x22 # cs) = (case texto cs [] of None \<Rightarrow> None | Some (t, r) \<Rightarrow> Some (JStr t, r))"
  by (simp add: valor.simps [of "0x22 # cs"])

lemma valor_outro:
  assumes "c \<noteq> 0x5B" "c \<noteq> 0x7B" "c \<noteq> 0x22"
  shows "valor (c # cs) =
     (if take 4 (c # cs) = js ''true'' then Some (JBool True, drop 4 (c # cs))
      else if take 5 (c # cs) = js ''false'' then Some (JBool False, drop 5 (c # cs))
      else if take 4 (c # cs) = js ''null'' then Some (JNull, drop 4 (c # cs))
      else (case numero (c # cs) of None \<Rightarrow> None | Some (n, r) \<Rightarrow> Some (JNum n, r)))"
  using assms by (simp add: valor.simps [of "c # cs"])

lemma valor_comprimento:
  "valor s = Some (v, r) \<longrightarrow> length r < length s"
  "elementos s acc = Some (vs, r) \<longrightarrow> length r < length s"
  "membros s ac = Some (ps, r) \<longrightarrow> length r < length s"
proof (induction s and s acc and s ac arbitrary: v r and vs r and ps r rule: valor_elementos_membros.induct)
  case (1 s)
  show ?case
  proof
    assume a: "valor s = Some (v, r)"
    then obtain c cs where s: "s = c # cs" by (cases s) (simp_all add: valor_Nil)
    show "length r < length s"
    proof (cases "c = 0x5B")
      case True
      show ?thesis
      proof (cases "semEspaco cs")
        case Nil
        then show ?thesis using a s True by (simp add: valor_colchete)
      next
        case (Cons d ds)
        show ?thesis
        proof (cases "d = 0x5D")
          case d: True
          then show ?thesis using a s True Cons semEspaco_Cons [OF Cons]
            by (simp add: valor_colchete)
        next
          case d: False
          then obtain vs where "elementos (semEspaco cs) [] = Some (vs, r)"
            using a s True Cons by (auto simp add: valor_colchete split: option.splits)
          then have "length r < length (semEspaco cs)"
            using "1.IH"(1) [OF s True Cons d] by simp
          then show ?thesis using s comprimento_semEspaco [of cs] by simp
        qed
      qed
    next
      case nb: False
      show ?thesis
      proof (cases "c = 0x7B")
        case True
        show ?thesis
        proof (cases "semEspaco cs")
          case Nil
          then show ?thesis using a s True by (simp add: valor_chave)
        next
          case (Cons d ds)
          show ?thesis
          proof (cases "d = 0x7D")
            case d: True
            then show ?thesis using a s True Cons semEspaco_Cons [OF Cons]
              by (simp add: valor_chave)
          next
            case d: False
            then obtain ps where "membros (semEspaco cs) [] = Some (ps, r)"
              using a s True Cons by (auto simp add: valor_chave split: option.splits)
            then have "length r < length (semEspaco cs)"
              using "1.IH"(2) [OF s nb True Cons d] by simp
            then show ?thesis using s comprimento_semEspaco [of cs] by simp
          qed
        qed
      next
        case nc: False
        show ?thesis
        proof (cases "c = 0x22")
          case True
          then show ?thesis using a s
            by (auto simp add: valor_aspas split: option.splits dest: texto_comprimento)
        next
          case False
          have l: "length (js ''true'') = 4" "length (js ''false'') = 5" "length (js ''null'') = 4"
            by (simp_all add: js_def)
          show ?thesis
            using a take_literal [of 4 s "js ''true''"] take_literal [of 5 s "js ''false''"]
              take_literal [of 4 s "js ''null''"] l
            unfolding s valor_outro [OF nb nc False]
            by (auto split: if_splits option.splits dest: numero_comprimento)
        qed
      qed
    qed
  qed
next
  case (2 s acc)
  show ?case
  proof
    assume a: "elementos s acc = Some (vs, r)"
    then obtain v r1 where v: "valor s = Some (v, r1)"
      by (cases "valor s") (auto simp: elementos.simps [of s acc])
    then have l1: "length r1 < length s" using "2.IH"(1) by simp
    from a v obtain d ds where d: "semEspaco r1 = d # ds"
      by (cases "semEspaco r1") (auto simp: elementos.simps [of s acc])
    have l2: "length ds < length r1" by (rule semEspaco_Cons [OF d])
    show "length r < length s"
    proof (cases "d = 0x5D")
      case True
      then show ?thesis using a v d l1 l2 by (simp add: elementos.simps [of s acc])
    next
      case False
      then have c: "d = 0x2C \<and> length ds < length s" and e: "elementos (semEspaco ds) (acc @ [v]) = Some (vs, r)"
        using a v d by (auto simp: elementos.simps [of s acc] split: if_splits)
      have "length r < length (semEspaco ds)"
        using "2.IH"(2) [OF v refl d False c] e by simp
      then show ?thesis using comprimento_semEspaco [of ds] l1 l2 by simp
    qed
  qed
next
  case (3 s acc)
  show ?case
  proof
    assume a: "membros s acc = Some (ps, r)"
    then obtain q s1 where s: "s = q # s1" by (cases s) (simp_all add: membros.simps [of "[]"])
    note m = membros.simps [of "q # s1" acc]
    have a: "membros (q # s1) acc = Some (ps, r)" using a s by simp
    have q: "\<not> q \<noteq> 0x22" using a by (auto simp: m split: if_splits)
    obtain k r1 where t: "texto s1 [] = Some (k, r1)"
      using a q by (cases "texto s1 []") (auto simp: m)
    have l1: "length r1 < length s1" by (rule texto_comprimento [OF t])
    obtain p r2 where p: "semEspaco r1 = p # r2"
      using a q t by (cases "semEspaco r1") (auto simp: m)
    have l2: "length r2 < length r1" by (rule semEspaco_Cons [OF p])
    have c: "\<not> p \<noteq> 0x3A"
      using a q t p by (auto simp: m split: if_splits)
    obtain v r3 where v: "valor (semEspaco r2) = Some (v, r3)"
      using a q t p c by (cases "valor (semEspaco r2)") (auto simp: m)
    have l3: "length r3 < length (semEspaco r2)"
      using "3.IH"(1) [OF s q t refl p c] v by simp
    obtain d ds where d: "semEspaco r3 = d # ds"
      using a q t p c v by (cases "semEspaco r3") (auto simp: m)
    have l4: "length ds < length r3" by (rule semEspaco_Cons [OF d])
    note ls = l1 l2 l3 l4 comprimento_semEspaco [of r2]
    show "length r < length s"
    proof (cases "d = 0x7D")
      case True
      then show ?thesis using a q t p c v d ls s by (simp add: m)
    next
      case False
      then have g: "d = 0x2C \<and> length ds < length s"
        and e: "membros (semEspaco ds) (definir acc k v) = Some (ps, r)"
        using a q t p c v d s by (auto simp: m split: if_splits)
      have "length r < length (semEspaco ds)"
        using "3.IH"(2) [OF s q t refl p c v refl d False g] e by simp
      then show ?thesis using comprimento_semEspaco [of ds] ls s by simp
    qed
  qed
qed

subsection \<open>The parsers without the termination tests\<close>

lemma elementos_eq:
  "elementos s acc =
     (case valor s of
        None \<Rightarrow> None
      | Some (v, r) \<Rightarrow>
          (case semEspaco r of
             [] \<Rightarrow> None
           | d # ds \<Rightarrow>
               if d = 0x5D then Some (acc @ [v], ds)
               else if d = 0x2C then elementos (semEspaco ds) (acc @ [v])
               else None))"
proof (cases "valor s")
  case None
  then show ?thesis by (simp add: elementos.simps [of s acc])
next
  case (Some x)
  obtain v r where x: "x = (v, r)" by (cases x)
  have l: "length r < length s" using Some x valor_comprimento(1) [of s v r] by simp
  show ?thesis
  proof (cases "semEspaco r")
    case Nil
    then show ?thesis using Some x by (simp add: elementos.simps [of s acc])
  next
    case (Cons d ds)
    then have "length ds < length s" using semEspaco_Cons [OF Cons] l by simp
    then show ?thesis using Some x Cons by (simp add: elementos.simps [of s acc])
  qed
qed

lemma membros_eq:
  "membros (0x22 # s1) acc =
     (case texto s1 [] of
        None \<Rightarrow> None
      | Some (k, r) \<Rightarrow>
          (case semEspaco r of
             [] \<Rightarrow> None
           | p # r2 \<Rightarrow>
               if p \<noteq> 0x3A then None
               else
                 (case valor (semEspaco r2) of
                    None \<Rightarrow> None
                  | Some (v, r3) \<Rightarrow>
                      (case semEspaco r3 of
                         [] \<Rightarrow> None
                       | d # ds \<Rightarrow>
                           if d = 0x7D then Some (definir acc k v, ds)
                           else if d = 0x2C then membros (semEspaco ds) (definir acc k v)
                           else None))))"
proof -
  note m = membros.simps [of "0x22 # s1" acc]
  show ?thesis
  proof (cases "texto s1 []")
    case None
    then show ?thesis by (simp add: m)
  next
    case (Some x)
    obtain k r where x: "x = (k, r)" by (cases x)
    have l1: "length r < length s1" using Some x texto_comprimento [of s1 "[]" k r] by simp
    show ?thesis
    proof (cases "semEspaco r")
      case Nil
      then show ?thesis using Some x by (simp add: m)
    next
      case p: (Cons p r2)
      have l2: "length r2 < length r" by (rule semEspaco_Cons [OF p])
      show ?thesis
      proof (cases "valor (semEspaco r2)")
        case None
        then show ?thesis using Some x p by (simp add: m)
      next
        case v: (Some y)
        obtain v r3 where y: "y = (v, r3)" by (cases y)
        have l3: "length r3 < length (semEspaco r2)"
          using v y valor_comprimento(1) [of "semEspaco r2" v r3] by simp
        show ?thesis
        proof (cases "semEspaco r3")
          case Nil
          then show ?thesis using Some x p v y by (simp add: m)
        next
          case d: (Cons d ds)
          have "length ds < length r3" by (rule semEspaco_Cons [OF d])
          then have "length ds < length (0x22 # s1)"
            using l1 l2 l3 comprimento_semEspaco [of r2] by simp
          then show ?thesis using Some x p v y d by (simp add: m)
        qed
      qed
    qed
  qed
qed

lemma membros_sem_aspas: "q \<noteq> 0x22 \<Longrightarrow> membros (q # s1) acc = None" "membros [] acc = None"
  by (simp_all add: membros.simps [of "q # s1" acc] membros.simps [of "[]" acc])

section \<open>Reading back what the serializer writes\<close>

lemma hexa_algarismoHexa: "n < 16 \<Longrightarrow> hexa (algarismoHexa n) = Some n"
  unfolding hexa_def algarismoHexa_def
  by (auto simp: word_le_nat_alt word_less_nat_alt unat_word_ariths)

lemma partes_hexa_nat:
  fixes u :: nat
  shows "4096 * (u div 4096) + 256 * (u div 256 mod 16) + 16 * (u div 16 mod 16) + u mod 16 = u"
proof -
  define q1 q2 q3 where "q1 = u div 16" and "q2 = u div 256" and "q3 = u div 4096"
  define d0 d1 d2 where "d0 = u mod 16" and "d1 = q1 mod 16" and "d2 = q2 mod 16"
  have "q1 div 16 = q2" "q2 div 16 = q3"
    by (simp_all add: q1_def q2_def q3_def div_mult2_eq [symmetric])
  then have a: "q1 = 16 * q2 + d1" and b: "q2 = 16 * q3 + d2"
    using div_mult_mod_eq [of q1 16] div_mult_mod_eq [of q2 16] by (simp_all add: d1_def d2_def)
  have c: "u = 16 * q1 + d0" by (simp add: q1_def d0_def)
  have "u = 16 * (16 * (16 * q3 + d2) + d1) + d0" using a b c by simp
  then have "4096 * q3 + 256 * d2 + 16 * d1 + d0 = u" by simp
  then show ?thesis by (simp add: q1_def q2_def q3_def d0_def d1_def d2_def)
qed

lemma partes_hexa:
  fixes c :: jschar
  shows "c div 4096 < 16" "c div 256 mod 16 < 16" "c div 16 mod 16 < 16" "c mod 16 < 16"
    "4096 * (c div 4096) + 256 * (c div 256 mod 16) + 16 * (c div 16 mod 16) + c mod 16 = c"
proof -
  have u: "unat c < 65536" using unsigned_less [of c, where ?'a = nat] by simp
  show "c div 4096 < 16" using u by (simp add: word_less_nat_alt unat_div)
  show "c div 256 mod 16 < 16" by (simp add: word_less_nat_alt unat_div unat_mod)
  show "c div 16 mod 16 < 16" by (simp add: word_less_nat_alt unat_div unat_mod)
  show "c mod 16 < 16" by (simp add: word_less_nat_alt unat_mod)
  have "unat (4096 * (c div 4096) + 256 * (c div 256 mod 16) + 16 * (c div 16 mod 16) + c mod 16)
          = (4096 * (unat c div 4096) + 256 * (unat c div 256 mod 16) + 16 * (unat c div 16 mod 16) + unat c mod 16) mod 65536"
    by (simp add: unat_word_ariths unat_div unat_mod mod_simps mod_mod_cancel)
  also have "\<dots> = unat c" using u by (simp add: partes_hexa_nat)
  finally show "4096 * (c div 4096) + 256 * (c div 256 mod 16) + 16 * (c div 16 mod 16) + c mod 16 = c"
    by (simp add: word_unat_eq_iff)
qed

lemma hexa4_escapeUnicode:
  "escape (tl (escapeUnicode c) @ r) = Some (c, r)"
  using partes_hexa [of c]
  by (simp add: escape_def escapeUnicode_def hexa4_def hexa_algarismoHexa)


lemma texto_escapeUnicode: "texto (escapeUnicode c @ r) acc = texto r (acc @ [c])"
proof -
  have e: "escapeUnicode c @ r = 0x5C # (tl (escapeUnicode c) @ r)"
    by (simp add: escapeUnicode_def)
  show ?thesis by (subst e) (simp add: hexa4_escapeUnicode)
qed

lemma texto_escapes:
  "texto (0x5C # 0x62 # r) acc = texto r (acc @ [0x08])"
  "texto (0x5C # 0x74 # r) acc = texto r (acc @ [0x09])"
  "texto (0x5C # 0x6E # r) acc = texto r (acc @ [0x0A])"
  "texto (0x5C # 0x66 # r) acc = texto r (acc @ [0x0C])"
  "texto (0x5C # 0x72 # r) acc = texto r (acc @ [0x0D])"
  "texto (0x5C # 0x22 # r) acc = texto r (acc @ [0x22])"
  "texto (0x5C # 0x5C # r) acc = texto r (acc @ [0x5C])"
  by (simp_all add: escape_def simples_def)

lemma texto_plano:
  "\<not> c < 0x20 \<Longrightarrow> c \<noteq> 0x22 \<Longrightarrow> c \<noteq> 0x5C \<Longrightarrow> texto (c # r) acc = texto r (acc @ [c])"
  by simp

lemma texto_citar: "texto (citar s @ 0x22 # r) acc = Some (acc @ s, r)"
proof (induction s arbitrary: acc rule: citar.induct)
  case 1
  show ?case by simp
next
  case (2 c cs)
  consider (esc) "c = 0x08 \<or> c = 0x09 \<or> c = 0x0A \<or> c = 0x0C \<or> c = 0x0D \<or> c = 0x22 \<or> c = 0x5C"
    | (ctl) "\<not> (c = 0x08 \<or> c = 0x09 \<or> c = 0x0A \<or> c = 0x0C \<or> c = 0x0D \<or> c = 0x22 \<or> c = 0x5C)" "c < 0x20"
    | (par) "\<not> (c = 0x08 \<or> c = 0x09 \<or> c = 0x0A \<or> c = 0x0C \<or> c = 0x0D \<or> c = 0x22 \<or> c = 0x5C)" "\<not> c < 0x20"
        "0xD800 \<le> c \<and> c \<le> 0xDBFF"
    | (sol) "\<not> (c = 0x08 \<or> c = 0x09 \<or> c = 0x0A \<or> c = 0x0C \<or> c = 0x0D \<or> c = 0x22 \<or> c = 0x5C)" "\<not> c < 0x20"
        "\<not> (0xD800 \<le> c \<and> c \<le> 0xDBFF)" "0xDC00 \<le> c \<and> c \<le> 0xDFFF"
    | (pla) "\<not> (c = 0x08 \<or> c = 0x09 \<or> c = 0x0A \<or> c = 0x0C \<or> c = 0x0D \<or> c = 0x22 \<or> c = 0x5C)" "\<not> c < 0x20"
        "\<not> (0xD800 \<le> c \<and> c \<le> 0xDBFF)" "\<not> (0xDC00 \<le> c \<and> c \<le> 0xDFFF)"
    by blast
  then show ?case
  proof cases
    case esc
    then show ?thesis
      using "2.IH"(1-7) [of "acc @ [c]"] by (elim disjE) (simp_all add: texto_escapes del: texto.simps)
  next
    case ctl
    then show ?thesis
      using "2.IH"(8) [of "acc @ [c]"] by (simp add: texto_escapeUnicode del: texto.simps)
  next
    case par
    show ?thesis
    proof (cases cs)
      case Nil
      then show ?thesis using par by (simp add: texto_escapeUnicode)
    next
      case (Cons d ds)
      show ?thesis
      proof (cases "0xDC00 \<le> d \<and> d \<le> 0xDFFF")
        case True
        have "\<not> d < 0x20" "d \<noteq> 0x22" "d \<noteq> 0x5C"
          using True by (auto simp: word_le_nat_alt word_less_nat_alt)
        then show ?thesis
          using par Cons True "2.IH"(9) [of d ds "acc @ [c, d]"]
          by simp
      next
        case False
        have ih: "texto (citar cs @ 0x22 # r) (acc @ [c]) = Some ((acc @ [c]) @ cs, r)"
          using par Cons False "2.IH"(10) [of d ds "acc @ [c]"] by blast
        have ci: "citar (c # cs) = escapeUnicode c @ citar cs"
          using par Cons False by (auto simp add: citar.simps(2) [of c] simp del: citar.simps)
        show ?thesis
          unfolding ci using ih by (simp add: texto_escapeUnicode del: citar.simps texto.simps)
      qed
    qed
  next
    case sol
    then show ?thesis
      using "2.IH"(11) [of "acc @ [c]"] by (auto simp add: texto_escapeUnicode simp del: texto.simps)
  next
    case pla
    then show ?thesis
      using "2.IH"(12) [of "acc @ [c]"] by auto
  qed
qed

definition inicioDeValor :: "jstring \<Rightarrow> bool" where
  "inicioDeValor t \<longleftrightarrow> (\<exists>c u. t = c # u \<and> \<not> espaco c \<and> c \<noteq> 0x5D \<and> c \<noteq> 0x7D)"

lemma semEspaco_inicio: "inicioDeValor t \<Longrightarrow> semEspaco (t @ r) = t @ r"
  by (auto simp: inicioDeValor_def semEspaco_def)

lemma inicio_serializar: "canonico v \<Longrightarrow> inicioDeValor (serializar num v)"
  by (cases v) (auto simp: inicioDeValor_def espaco_def js_def)

lemma semEspaco_pontuacao [simp]:
  "semEspaco (0x5D # r) = 0x5D # r" "semEspaco (0x7D # r) = 0x7D # r"
  "semEspaco (0x2C # r) = 0x2C # r" "semEspaco (0x3A # r) = 0x3A # r"
  "semEspaco (0x22 # r) = 0x22 # r"
  by (simp_all add: semEspaco_def espaco_def)

lemma elementos_juntar:
  assumes "\<forall>v \<in> set vs. canonico v \<and> (\<forall>r. valor (serializar num v @ r) = Some (v, r))"
    and "vs \<noteq> []"
  shows "elementos (juntar (map (serializar num) vs) @ 0x5D # r) acc = Some (acc @ vs, r)"
  using assms
proof (induction vs arbitrary: acc)
  case Nil
  then show ?case by simp
next
  case (Cons v ws)
  have v: "\<And>r. valor (serializar num v @ r) = Some (v, r)" using Cons.prems by simp
  show ?case
  proof (cases ws)
    case Nil
    then show ?thesis by (subst elementos_eq) (simp add: v)
  next
    case (Cons w xs)
    have i: "inicioDeValor (serializar num w)"
      using Cons.prems Cons inicio_serializar by simp
    obtain u where u: "juntar (map (serializar num) (w # xs)) @ 0x5D # r = serializar num w @ u"
      by (cases xs) simp_all
    have "elementos (juntar (map (serializar num) ws) @ 0x5D # r) (acc @ [v]) = Some ((acc @ [v]) @ ws, r)"
      using Cons.IH [of "acc @ [v]"] Cons.prems Cons by simp
    then show ?thesis
      using Cons u semEspaco_inicio [OF i, of u]
      by (subst elementos_eq) (simp add: v)
  qed
qed


definition membroTexto :: "(jstring \<Rightarrow> jstring) \<Rightarrow> jstring \<times> jsval \<Rightarrow> jstring" where
  "membroTexto num p = 0x22 # citar (fst p) @ [0x22, 0x3A] @ serializar num (snd p)"

lemma definir_novo:
  "k \<notin> set (map fst acc) \<Longrightarrow> indice k = None \<Longrightarrow> definir acc k v = acc @ [(k, v)]"
  by (simp add: definir_def)

lemma membros_passo:
  assumes "\<And>r. valor (serializar num v @ r) = Some (v, r)" and "inicioDeValor (serializar num v)"
  shows "membros (0x22 # citar k @ 0x22 # 0x3A # serializar num v @ 0x2C # t) acc
           = membros (semEspaco t) (definir acc k v)"
    and "membros (0x22 # citar k @ 0x22 # 0x3A # serializar num v @ 0x7D # t) acc
           = Some (definir acc k v, t)"
  using semEspaco_inicio [OF assms(2)]
  by (simp_all add: membros_eq texto_citar assms(1))

lemma membros_juntar:
  assumes "\<forall>p \<in> set ps. indice (fst p) = None \<and> canonico (snd p)
             \<and> (\<forall>r. valor (serializar num (snd p) @ r) = Some (snd p, r))"
    and "distinct (map fst (acc @ ps))"
    and "ps \<noteq> []"
  shows "membros (juntar (map (membroTexto num) ps) @ 0x7D # r) acc = Some (acc @ ps, r)"
  using assms
proof (induction ps arbitrary: acc)
  case Nil
  then show ?case by simp
next
  case (Cons p qs)
  obtain k v where p: "p = (k, v)" by (cases p)
  have v: "\<And>r. valor (serializar num v @ r) = Some (v, r)" using Cons.prems p by simp
  have i: "inicioDeValor (serializar num v)" using Cons.prems p inicio_serializar by simp
  have d: "definir acc k v = acc @ [(k, v)]"
    using Cons.prems p by (intro definir_novo) auto
  show ?case
  proof (cases qs)
    case Nil
    have "juntar (map (membroTexto num) (p # qs)) @ 0x7D # r
            = 0x22 # citar k @ 0x22 # 0x3A # serializar num v @ 0x7D # r"
      by (simp add: Nil p membroTexto_def)
    then show ?thesis using membros_passo(2) [OF v i] d Nil p by simp
  next
    case (Cons q xs)
    define t where "t = juntar (map (membroTexto num) qs) @ 0x7D # r"
    obtain u where u: "t = 0x22 # u"
      unfolding t_def using Cons by (cases xs) (simp_all add: membroTexto_def)
    have ih: "membros t (acc @ [p]) = Some ((acc @ [p]) @ qs, r)"
      unfolding t_def using Cons.IH [of "acc @ [p]"] Cons.prems Cons by simp
    have "juntar (map (membroTexto num) (p # qs)) @ 0x7D # r
            = 0x22 # citar k @ 0x22 # 0x3A # serializar num v @ 0x2C # t"
      by (simp add: Cons p membroTexto_def t_def)
    then have "membros (juntar (map (membroTexto num) (p # qs)) @ 0x7D # r) acc
                 = membros (semEspaco t) (definir acc k v)"
      using membros_passo(1) [OF v i] by simp
    also have "semEspaco t = t" by (simp add: u)
    finally show ?thesis using ih d p by simp
  qed
qed

lemma valor_serializar:
  "canonico v \<Longrightarrow> valor (serializar num v @ r) = Some (v, r)"
proof (induction v arbitrary: r)
  case JNull
  show ?case by (simp add: js_def valor.simps [of "0x6E # _"])
next
  case (JBool b)
  show ?case by (cases b) (simp_all add: js_def valor.simps [of "0x74 # _"] valor.simps [of "0x66 # _"])
next
  case (JNum n)
  then show ?case by simp
next
  case (JStr s)
  show ?case by (simp add: valor_aspas texto_citar)
next
  case (JArr vs)
  show ?case
  proof (cases vs)
    case Nil
    then show ?thesis by (simp add: valor_colchete)
  next
    case (Cons w ws)
    have h: "\<forall>v \<in> set vs. canonico v \<and> (\<forall>r. valor (serializar num v @ r) = Some (v, r))"
      using JArr by simp
    have i: "inicioDeValor (serializar num w)"
      using JArr.prems Cons inicio_serializar by simp
    define t where "t = juntar (map (serializar num) vs) @ 0x5D # r"
    obtain c u where u: "t = c # u" "\<not> espaco c" "c \<noteq> 0x5D"
    proof -
      obtain c x where "serializar num w = c # x" "\<not> espaco c" "c \<noteq> 0x5D"
        using i by (auto simp: inicioDeValor_def)
      then show ?thesis using that Cons unfolding t_def by (cases ws) simp_all
    qed
    have e: "elementos t [] = Some (vs, r)"
      unfolding t_def using elementos_juntar [OF h, of r "[]"] Cons by simp
    have s: "semEspaco t = t" using u by (simp add: semEspaco_def)
    have "serializar num (JArr vs) @ r = 0x5B # t" by (simp add: t_def)
    then show ?thesis using e s u by (simp add: valor_colchete)
  qed
next
  case (JObj ps)
  show ?case
  proof (cases ps)
    case Nil
    then show ?thesis by (simp add: valor_chave)
  next
    case (Cons q qs)
    have h: "\<forall>p \<in> set ps. indice (fst p) = None \<and> canonico (snd p)
             \<and> (\<forall>r. valor (serializar num (snd p) @ r) = Some (snd p, r))"
    proof
      fix p assume m: "p \<in> set ps"
      then have "canonico (snd p)" "indice (fst p) = None" using JObj.prems by auto
      moreover have "snd p \<in> Basic_BNFs.snds p" by (cases p) simp
      ultimately show "indice (fst p) = None \<and> canonico (snd p)
             \<and> (\<forall>r. valor (serializar num (snd p) @ r) = Some (snd p, r))"
        using JObj.IH [OF m] by simp
    qed
    define t where "t = juntar (map (membroTexto num) ps) @ 0x7D # r"
    obtain u where u: "t = 0x22 # u"
      unfolding t_def using Cons by (cases qs) (simp_all add: membroTexto_def)
    have e: "membros t [] = Some (ps, r)"
      unfolding t_def using membros_juntar [OF h, of "[]" r] Cons JObj.prems by simp
    have "membroTexto num = (\<lambda>p. 0x22 # citar (fst p) @ [0x22, 0x3A] @ serializar num (snd p))"
      by (rule ext) (simp add: membroTexto_def)
    then have "serializar num (JObj ps) @ r = 0x7B # t" by (simp add: t_def)
    then show ?thesis using e by (simp add: valor_chave u)
  qed
qed

lemma indice_nomes:
  "indice (js ''nome'') = None" "indice (js ''telefone'') = None" "indice (js ''servico'') = None"
  "indice (js ''data'') = None" "indice (js ''hora'') = None"
  by (simp_all add: indice_def js_def ehDigito_def)

lemma canonico_novoAgendamento: "canonico (novoAgendamento f)"
  by (simp add: novoAgendamento_def indice_nomes) (simp add: js_def)

lemma JSON_parse_stringify:
  assumes "canonico v"
  shows "JSON_parse (JSON_stringify num v) = Some v"
proof -
  have "semEspaco (serializar num v @ []) = serializar num v @ []"
    by (rule semEspaco_inicio [OF inicio_serializar [OF assms]])
  then show ?thesis
    using valor_serializar [OF assms, of num "[]"]
    by (simp add: JSON_parse_def JSON_stringify_def semEspaco_def)
qed

lemma serializar_nao_vazio: "canonico v \<Longrightarrow> serializar num v \<noteq> []"
  using inicio_serializar [of v num] by (auto simp: inicioDeValor_def)

lemma pegar_salvar:
  assumes "canonico v"
  shows "pegarListaDeAgendamentos (salvarListaDeAgendamentos num v) = v"
  using JSON_parse_stringify [OF assms, of num] serializar_nao_vazio [OF assms, of num]
  by (simp add: pegarListaDeAgendamentos_def salvarListaDeAgendamentos_def JSON_stringify_def)

lemma pegar_vazio: "pegarListaDeAgendamentos None = JArr []" "pegarListaDeAgendamentos (Some []) = JArr []"
  by (simp_all add: pegarListaDeAgendamentos_def JSON_parse_def js_def valor_colchete semEspaco_def espaco_def)

lemma pegar_texto_invalido: "JSON_parse t = None \<Longrightarrow> pegarListaDeAgendamentos (Some t) = JArr []"
  using pegar_vazio(2) by (cases "t = []") (simp_all add: pegarListaDeAgendamentos_def)

section \<open>The submit handler on a list of appointments\<close>

definition chave :: "formulario \<Rightarrow> jstring \<times> jstring" where
  "chave a = (campoData a, campoHora a)"

lemma nomes_distintos:
  "js ''data'' \<noteq> js ''nome''" "js ''data'' \<noteq> js ''telefone''" "js ''data'' \<noteq> js ''servico''"
  "js ''hora'' \<noteq> js ''nome''" "js ''hora'' \<noteq> js ''telefone''" "js ''hora'' \<noteq> js ''servico''"
  "js ''hora'' \<noteq> js ''data''" "js ''nome'' \<noteq> js ''telefone''" "js ''servico'' \<noteq> js ''nome''"
  "js ''servico'' \<noteq> js ''telefone''"
  by (simp_all add: js_def)

lemma propriedade_novoAgendamento:
  "propriedade (novoAgendamento a) (js ''data'') = Inr (Some (JStr (campoData a)))"
  "propriedade (novoAgendamento a) (js ''hora'') = Inr (Some (JStr (campoHora a)))"
  "propriedade (novoAgendamento a) (js ''nome'') = Inr (Some (JStr (campoNome a)))"
  "propriedade (novoAgendamento a) (js ''servico'') = Inr (Some (JStr (campoServico a)))"
  using nomes_distintos by (simp_all add: propriedade_def novoAgendamento_def)

lemma dataEHoraIguais_novoAgendamento:
  "dataEHoraIguais d h (novoAgendamento a) = Inr (chave a = (d, h))"
  by (auto simp: dataEHoraIguais_def propriedade_novoAgendamento chave_def)

lemma algum_agendamentos:
  "algum (dataEHoraIguais d h) (map novoAgendamento ags) = Inr ((d, h) \<in> set (map chave ags))"
  by (induction ags) (auto simp: dataEHoraIguais_novoAgendamento)

lemma horarioEstaOcupado_agendamentos:
  assumes "pegarListaDeAgendamentos arm = JArr (map novoAgendamento ags)"
  shows "horarioEstaOcupado arm d h = Inr ((d, h) \<in> set (map chave ags))"
  by (simp add: horarioEstaOcupado_def assms algum_agendamentos)

lemma filtrar_sem_nulos:
  "JNull \<notin> set xs \<Longrightarrow> \<exists>ys. filtrar (dataIgual d) xs = Inr ys \<and> set ys \<subseteq> set xs"
proof (induction xs)
  case Nil
  then show ?case by simp
next
  case (Cons x xs)
  then obtain ys where "filtrar (dataIgual d) xs = Inr ys" "set ys \<subseteq> set xs" by auto
  moreover obtain b where "dataIgual d x = Inr b"
    using Cons.prems by (cases x) (auto simp: dataIgual_def propriedade_def)
  ultimately show ?case by auto
qed

lemma mapear_sem_nulos:
  "JNull \<notin> set xs \<Longrightarrow> \<exists>ys. mapear (\<lambda>x. propriedade x p) xs = Inr ys"
proof (induction xs)
  case Nil
  then show ?case by simp
next
  case (Cons x xs)
  then obtain ys where "mapear (\<lambda>x. propriedade x p) xs = Inr ys" by auto
  moreover obtain b where "propriedade x p = Inr b"
    using Cons.prems by (cases x) (auto simp: propriedade_def)
  ultimately show ?case by auto
qed

lemma atualizarListaDeHorarios_sem_nulos:
  assumes "listaSemNulos arm"
  shows "\<exists>h. atualizarListaDeHorarios outros sel arm d = Inr h"
proof -
  obtain xs where xs: "pegarListaDeAgendamentos arm = JArr xs" "JNull \<notin> set xs"
    using assms by (auto simp: listaSemNulos_def split: jsval.splits)
  obtain ys where ys: "filtrar (dataIgual d) xs = Inr ys" "set ys \<subseteq> set xs"
    using filtrar_sem_nulos [OF xs(2)] by blast
  then have "JNull \<notin> set ys" using xs(2) by auto
  then obtain hs where "mapear (\<lambda>x. propriedade x (js ''hora'')) ys = Inr hs"
    using mapear_sem_nulos by blast
  then show ?thesis using xs ys by (simp add: atualizarListaDeHorarios_def)
qed

lemma mensagens_distintas:
  "distinct [MSG_CAMPOS, MSG_PERIODO, MSG_DOMINGO, MSG_OCUPADO, MSG_SALVO]"
  by (simp add: MSG_CAMPOS_def MSG_PERIODO_def MSG_DOMINGO_def MSG_OCUPADO_def MSG_SALVO_def js_def)

lemma aoEnviar_agendamentos:
  assumes "pegarListaDeAgendamentos arm = JArr (map novoAgendamento ags)"
  shows "armazenado (aoEnviar outros num f arm) = arm
         \<or> (chave f \<notin> set (map chave ags)
            \<and> armazenado (aoEnviar outros num f arm)
                 = salvarListaDeAgendamentos num (JArr (map novoAgendamento (ags @ [f]))))"
proof (cases "chave f \<in> set (map chave ags)")
  case True
  then have "horarioEstaOcupado arm (campoData f) (campoHora f) = Inr True"
    using horarioEstaOcupado_agendamentos [OF assms, of "campoData f" "campoHora f"]
    by (simp add: chave_def)
  then show ?thesis by (simp add: aoEnviar_def Let_def parado_def split: sum.split)
next
  case False
  then have "horarioEstaOcupado arm (campoData f) (campoHora f) = Inr False"
    using horarioEstaOcupado_agendamentos [OF assms, of "campoData f" "campoHora f"]
    by (simp add: chave_def)
  then show ?thesis
    using False assms by (simp add: aoEnviar_def Let_def parado_def split: sum.split)
qed

lemma pegar_salvar_agendamentos:
  "pegarListaDeAgendamentos (salvarListaDeAgendamentos num (JArr (map novoAgendamento ags)))
     = JArr (map novoAgendamento ags)"
  by (rule pegar_salvar) (simp add: canonico_novoAgendamento)

definition semConflito :: "armazenamento \<Rightarrow> bool" where
  "semConflito arm \<longleftrightarrow>
     (\<exists>ags. pegarListaDeAgendamentos arm = JArr (map novoAgendamento ags) \<and> distinct (map chave ags))"

lemma semConflito_aoEnviar:
  assumes "semConflito arm"
  shows "semConflito (armazenado (aoEnviar outros num f arm))"
proof -
  obtain ags where a: "pegarListaDeAgendamentos arm = JArr (map novoAgendamento ags)"
    and d: "distinct (map chave ags)"
    using assms by (auto simp: semConflito_def)
  from aoEnviar_agendamentos [OF a, of outros num f] show ?thesis
  proof
    assume "armazenado (aoEnviar outros num f arm) = arm"
    then show ?thesis using assms by simp
  next
    assume n: "chave f \<notin> set (map chave ags)
            \<and> armazenado (aoEnviar outros num f arm)
                 = salvarListaDeAgendamentos num (JArr (map novoAgendamento (ags @ [f])))"
    then have "pegarListaDeAgendamentos (armazenado (aoEnviar outros num f arm))
                 = JArr (map novoAgendamento (ags @ [f]))"
      by (simp only: pegar_salvar_agendamentos)
    moreover have "distinct (map chave (ags @ [f]))" using d n by simp
    ultimately show ?thesis unfolding semConflito_def by blast
  qed
qed

lemma semConflito_enviarTodos:
  "semConflito arm \<Longrightarrow> semConflito (enviarTodos outros num fs arm)"
  by (induction fs arbitrary: arm) (simp_all add: semConflito_aoEnviar)

subsection \<open>The scenario\<close>

lemma cenario_textos:
  "textoISO 2025 10 6 = js ''2025-10-06''" "textoISO 2025 10 5 = js ''2025-10-05''"
  "textoISO 2026 1 1 = js ''2026-01-01''" "textoISO 2026 (Suc 0) (Suc 0) = js ''2026-01-01''"
  by (simp_all add: textoISO_def algarismo_def js_def)

lemma cenario_datas:
  "dataEstaDentroDoPeriodoPermitido outros (js ''2025-10-06'')"
  "\<not> ehDomingo outros (js ''2025-10-06'')"
  "dataEstaDentroDoPeriodoPermitido outros (js ''2025-10-05'')"
  "ehDomingo outros (js ''2025-10-05'')"
  "\<not> dataEstaDentroDoPeriodoPermitido outros (js ''2026-01-01'')"
proof -
  have v: "dataValida 2025 10 6" "dataValida 2025 10 5" "dataValida 2026 1 1"
    by (simp_all add: dataValida_def DaysInMonth_def)
  have p: "Date_parse outros (js ''2025-10-06'' @ js ''T00:00:00'') = Some (MakeDay 2025 10 6)"
    "Date_parse outros (js ''2025-10-05'' @ js ''T00:00:00'') = Some (MakeDay 2025 10 5)"
    "Date_parse outros (js ''2026-01-01'' @ js ''T00:00:00'') = Some (MakeDay 2026 1 1)"
    using Date_parse_textoISO [of 2025 10 6 outros] Date_parse_textoISO [of 2025 10 5 outros]
      Date_parse_textoISO [of 2026 1 1 outros] v
    by (simp_all add: cenario_textos)
  have y: "YearFromDay (MakeDay 2025 10 6) = 2025" "MonthFromDay (MakeDay 2025 10 6) = 9"
    "YearFromDay (MakeDay 2025 10 5) = 2025" "MonthFromDay (MakeDay 2025 10 5) = 9"
    "YearFromDay (MakeDay 2026 (Suc 0) (Suc 0)) = 2026"
    using YearFromDay_MakeDay [OF v(1)] MonthFromDay_MakeDay [OF v(1)]
      YearFromDay_MakeDay [OF v(2)] MonthFromDay_MakeDay [OF v(2)] YearFromDay_MakeDay [OF v(3)]
    by simp_all
  have w: "WeekDay (MakeDay 2025 10 6) = 1" "WeekDay (MakeDay 2025 10 5) = 0"
    by (simp_all add: WeekDay_def MakeDay_def DayFromYear_def diasAntesDoMes_def DaysInYear_def)
  show "dataEstaDentroDoPeriodoPermitido outros (js ''2025-10-06'')"
    "\<not> ehDomingo outros (js ''2025-10-06'')"
    "dataEstaDentroDoPeriodoPermitido outros (js ''2025-10-05'')"
    "ehDomingo outros (js ''2025-10-05'')"
    "\<not> dataEstaDentroDoPeriodoPermitido outros (js ''2026-01-01'')"
    by (simp_all add: dataEstaDentroDoPeriodoPermitido_def ehDomingo_def p y w
        ANO_PERMITIDO_def MESES_PERMITIDOS_def)
qed

lemma cenario_armazenado:
  "pegarListaDeAgendamentos cenarioArmazenado = JArr (map novoAgendamento [cenarioAna])"
  "listaSemNulos cenarioArmazenado"
proof -
  show a: "pegarListaDeAgendamentos cenarioArmazenado = JArr (map novoAgendamento [cenarioAna])"
    unfolding cenarioArmazenado_def by (rule pegar_salvar_agendamentos)
  show "listaSemNulos cenarioArmazenado"
    by (simp add: listaSemNulos_def a novoAgendamento_def)
qed

lemma cenario_campos:
  "campoNome cenarioAna = js ''Ana''" "campoTelefone cenarioAna = js ''111''"
  "campoData cenarioAna = js ''2025-10-06''" "campoHora cenarioAna = js ''09:00''"
  "js ''Ana'' \<noteq> []" "js ''Bia'' \<noteq> []" "js ''111'' \<noteq> []" "js ''2025-10-06'' \<noteq> []"
  "js ''2025-10-05'' \<noteq> []" "js ''2026-01-01'' \<noteq> []" "js ''09:00'' \<noteq> []"
  by (simp_all add: cenarioAna_def js_def)

text \<open>
  A \<^verbatim>\<open>null\<close> element makes the refresh of the list of times raise: \<^verbatim>\<open>filter\<close> reads
  \<^verbatim>\<open>a.data\<close> of every element.
\<close>

lemma filtrar_com_nulo:
  "JNull \<in> set xs \<Longrightarrow> filtrar (dataIgual d) xs = Inl TypeError"
proof (induction xs)
  case Nil
  then show ?case by simp
next
  case (Cons x xs)
  show ?case
  proof (cases "x = JNull")
    case True
    then show ?thesis by (simp add: dataIgual_def propriedade_def)
  next
    case False
    then have "filtrar (dataIgual d) xs = Inl TypeError" using Cons by simp
    moreover obtain b where "dataIgual d x = Inr b"
      using False by (cases x) (auto simp: dataIgual_def propriedade_def)
    ultimately show ?thesis by simp
  qed
qed

lemma atualizarListaDeHorarios_com_nulo:
  assumes "pegarListaDeAgendamentos arm = JArr xs" and "JNull \<in> set xs"
    and "d \<noteq> []" and "dataEstaDentroDoPeriodoPermitido outros d" and "\<not> ehDomingo outros d"
  shows "atualizarListaDeHorarios outros True arm d = Inl TypeError"
  using assms by (simp add: atualizarListaDeHorarios_def filtrar_com_nulo)

lemma horarioEstaOcupado_lista:
  "horarioEstaOcupado arm d h = Inr b \<Longrightarrow> \<exists>xs. pegarListaDeAgendamentos arm = JArr xs"
  by (simp add: horarioEstaOcupado_def split: jsval.splits)

lemma horarioEstaOcupado_nulo: "horarioEstaOcupado (Some (js ''null'')) d h = Inl TypeError"
  by (simp add: horarioEstaOcupado_def pegarListaDeAgendamentos_def JSON_parse_def js_def
      valor.simps [of "0x6E # _"] semEspaco_def espaco_def)

lemma pegar_lista_nula: "pegarListaDeAgendamentos (Some (js ''[null]'')) = JArr [JNull]"
proof -
  have "salvarListaDeAgendamentos (\<lambda>n. n) (JArr [JNull]) = Some (js ''[null]'')"
    by (simp add: salvarListaDeAgendamentos_def JSON_stringify_def js_def)
  then show ?thesis using pegar_salvar [of "JArr [JNull]" "\<lambda>n. n"] by simp
qed

lemma cenario_com_nulo:
  "pegarListaDeAgendamentos cenarioComNulo = JArr [novoAgendamento cenarioAna, JNull]"
proof -
  have "salvarListaDeAgendamentos (\<lambda>n. n) (JArr [novoAgendamento cenarioAna, JNull]) = cenarioComNulo"
    by (simp add: salvarListaDeAgendamentos_def JSON_stringify_def novoAgendamento_def
        cenarioAna_def cenarioComNulo_def js_def)
  then show ?thesis
    using pegar_salvar [of "JArr [novoAgendamento cenarioAna, JNull]" "\<lambda>n. n"]
    by (simp add: canonico_novoAgendamento)
qed

text \<open>
  The checks of the handler, for every store. The first check that fails decides the
  message, the messages are pairwise different, and no path but the successful one
  changes the store. For the first three checks the whole effect is the alert. After the
  occupancy message the refresh of the list of times raises a TypeError exactly when the
  stored list has a \<^verbatim>\<open>null\<close> element; and when the occupancy check itself raises, the
  handler ends with that exception and no message.
\<close>

lemma aoEnviar_validacoes:
  "(campoNome f = [] \<or> campoTelefone f = [] \<or> campoData f = [] \<or> campoHora f = [] \<longrightarrow>
      aoEnviar outros num f arm = (parado arm)\<lparr>alertas := [MSG_CAMPOS]\<rparr>)
   \<and> (\<not> (campoNome f = [] \<or> campoTelefone f = [] \<or> campoData f = [] \<or> campoHora f = [])
        \<and> \<not> dataEstaDentroDoPeriodoPermitido outros (campoData f) \<longrightarrow>
      aoEnviar outros num f arm = (parado arm)\<lparr>alertas := [MSG_PERIODO]\<rparr>)
   \<and> (\<not> (campoNome f = [] \<or> campoTelefone f = [] \<or> campoData f = [] \<or> campoHora f = [])
        \<and> dataEstaDentroDoPeriodoPermitido outros (campoData f)
        \<and> ehDomingo outros (campoData f) \<longrightarrow>
      aoEnviar outros num f arm = (parado arm)\<lparr>alertas := [MSG_DOMINGO]\<rparr>)
   \<and> (\<not> (campoNome f = [] \<or> campoTelefone f = [] \<or> campoData f = [] \<or> campoHora f = [])
        \<and> dataEstaDentroDoPeriodoPermitido outros (campoData f)
        \<and> \<not> ehDomingo outros (campoData f)
        \<and> horarioEstaOcupado arm (campoData f) (campoHora f) = Inr True \<longrightarrow>
      alertas (aoEnviar outros num f arm) = [MSG_OCUPADO]
      \<and> armazenado (aoEnviar outros num f arm) = arm
      \<and> \<not> formularioLimpo (aoEnviar outros num f arm)
      \<and> excecao (aoEnviar outros num f arm)
          = (if listaSemNulos arm then None else Some TypeError))
   \<and> (\<not> (campoNome f = [] \<or> campoTelefone f = [] \<or> campoData f = [] \<or> campoHora f = [])
        \<and> dataEstaDentroDoPeriodoPermitido outros (campoData f)
        \<and> \<not> ehDomingo outros (campoData f)
        \<and> horarioEstaOcupado arm (campoData f) (campoHora f) = Inl e \<longrightarrow>
      aoEnviar outros num f arm = (parado arm)\<lparr>excecao := Some e\<rparr>)
   \<and> distinct [MSG_CAMPOS, MSG_PERIODO, MSG_DOMINGO, MSG_OCUPADO, MSG_SALVO]
   \<and> (alertas (aoEnviar outros num f arm) \<noteq> [MSG_SALVO] \<longrightarrow>
        armazenado (aoEnviar outros num f arm) = arm)"
proof (intro conjI impI)
  assume "campoNome f = [] \<or> campoTelefone f = [] \<or> campoData f = [] \<or> campoHora f = []"
  then show "aoEnviar outros num f arm = (parado arm)\<lparr>alertas := [MSG_CAMPOS]\<rparr>"
    by (simp add: aoEnviar_def Let_def)
next
  assume "\<not> (campoNome f = [] \<or> campoTelefone f = [] \<or> campoData f = [] \<or> campoHora f = [])
        \<and> \<not> dataEstaDentroDoPeriodoPermitido outros (campoData f)"
  then show "aoEnviar outros num f arm = (parado arm)\<lparr>alertas := [MSG_PERIODO]\<rparr>"
    by (simp add: aoEnviar_def Let_def)
next
  assume "\<not> (campoNome f = [] \<or> campoTelefone f = [] \<or> campoData f = [] \<or> campoHora f = [])
        \<and> dataEstaDentroDoPeriodoPermitido outros (campoData f)
        \<and> ehDomingo outros (campoData f)"
  then show "aoEnviar outros num f arm = (parado arm)\<lparr>alertas := [MSG_DOMINGO]\<rparr>"
    by (simp add: aoEnviar_def Let_def)
next
  assume h: "\<not> (campoNome f = [] \<or> campoTelefone f = [] \<or> campoData f = [] \<or> campoHora f = [])
        \<and> dataEstaDentroDoPeriodoPermitido outros (campoData f)
        \<and> \<not> ehDomingo outros (campoData f)
        \<and> horarioEstaOcupado arm (campoData f) (campoHora f) = Inr True"
  then have e: "aoEnviar outros num f arm =
      (case atualizarListaDeHorarios outros True arm (campoData f) of
         Inl e \<Rightarrow> (parado arm)\<lparr>alertas := [MSG_OCUPADO], excecao := Some e\<rparr>
       | Inr h \<Rightarrow> (parado arm)\<lparr>alertas := [MSG_OCUPADO], listaDeHorarios := h\<rparr>)"
    by (simp add: aoEnviar_def Let_def)
  show "alertas (aoEnviar outros num f arm) = [MSG_OCUPADO]"
    "armazenado (aoEnviar outros num f arm) = arm"
    "\<not> formularioLimpo (aoEnviar outros num f arm)"
    by (simp_all add: e parado_def split: sum.split)
  show "excecao (aoEnviar outros num f arm) = (if listaSemNulos arm then None else Some TypeError)"
  proof (cases "listaSemNulos arm")
    case True
    then show ?thesis
      using atualizarListaDeHorarios_sem_nulos [of arm outros True "campoData f"]
      by (auto simp: e parado_def)
  next
    case False
    obtain xs where xs: "pegarListaDeAgendamentos arm = JArr xs"
      using h horarioEstaOcupado_lista by blast
    then have "JNull \<in> set xs" using False by (simp add: listaSemNulos_def)
    then have "atualizarListaDeHorarios outros True arm (campoData f) = Inl TypeError"
      using xs h by (simp add: atualizarListaDeHorarios_com_nulo)
    then show ?thesis using False by (simp add: e parado_def)
  qed
next
  assume "\<not> (campoNome f = [] \<or> campoTelefone f = [] \<or> campoData f = [] \<or> campoHora f = [])
        \<and> dataEstaDentroDoPeriodoPermitido outros (campoData f)
        \<and> \<not> ehDomingo outros (campoData f)
        \<and> horarioEstaOcupado arm (campoData f) (campoHora f) = Inl e"
  then show "aoEnviar outros num f arm = (parado arm)\<lparr>excecao := Some e\<rparr>"
    by (simp add: aoEnviar_def Let_def)
next
  show "distinct [MSG_CAMPOS, MSG_PERIODO, MSG_DOMINGO, MSG_OCUPADO, MSG_SALVO]"
    by (rule mensagens_distintas)
next
  assume "alertas (aoEnviar outros num f arm) \<noteq> [MSG_SALVO]"
  then show "armazenado (aoEnviar outros num f arm) = arm"
    by (auto simp: aoEnviar_def Let_def parado_def split: if_splits sum.splits bool.splits jsval.splits)
qed

section \<open>The appointments of a day, for a list of appointments\<close>

lemma indexOf_limites: "-1 \<le> indexOf hs v"
  by (induction hs) (auto simp: Let_def)

lemma indexOf_presente: "h \<in> set hs \<Longrightarrow> 0 \<le> indexOf hs (Some (JStr h))"
  by (induction hs) (auto simp: Let_def)

lemma indexOf_ausente: "h \<notin> set hs \<Longrightarrow> indexOf hs (Some (JStr h)) = -1"
  by (induction hs) (auto simp: Let_def)

lemma indexOf_nth:
  "h \<in> set hs \<Longrightarrow> hs ! nat (indexOf hs (Some (JStr h))) = h"
proof (induction hs)
  case Nil
  then show ?case by simp
next
  case (Cons x xs)
  show ?case
  proof (cases "x = h")
    case True
    then show ?thesis by simp
  next
    case False
    then have m: "h \<in> set xs" using Cons.prems by simp
    then have "0 \<le> indexOf xs (Some (JStr h))" by (rule indexOf_presente)
    then show ?thesis using False Cons.IH [OF m] by (simp add: Let_def nat_add_distrib)
  qed
qed

lemma filtrar_agendamentos:
  "filtrar (dataIgual d) (map novoAgendamento ags)
     = Inr (map novoAgendamento (filter (\<lambda>a. campoData a = d) ags))"
  by (induction ags) (simp_all add: dataIgual_def propriedade_novoAgendamento)

lemma posicao_novoAgendamento: "posicao (novoAgendamento a) = indiceDaHora a"
  by (simp add: posicao_def horaDe_def propriedade_novoAgendamento indiceDaHora_def)

lemma insort_key_map:
  "insort_key f (g x) (map g xs) = map g (insort_key (\<lambda>a. f (g a)) x xs)"
  by (induction xs) simp_all

lemma sort_key_map: "sort_key f (map g xs) = map g (sort_key (\<lambda>a. f (g a)) xs)"
  by (induction xs) (simp_all add: insort_key_map)

lemma agendamentosDoDia_agendamentos:
  assumes "pegarListaDeAgendamentos arm = JArr (map novoAgendamento ags)"
  shows "agendamentosDoDia arm d
           = Inr (map novoAgendamento (sort_key indiceDaHora (filter (\<lambda>a. campoData a = d) ags)))"
  by (simp add: agendamentosDoDia_def assms filtrar_agendamentos sort_key_map
      posicao_novoAgendamento)

lemma linha_novoAgendamento: "linha txt (novoAgendamento a) = Inr (linhaDe a)"
  by (simp add: linha_def propriedade_novoAgendamento interpolar_def linhaDe_def)

lemma mapear_linha: "mapear (linha txt) (map novoAgendamento sel) = Inr (map linhaDe sel)"
  by (induction sel) (simp_all add: linha_novoAgendamento)

lemma cenario_indices:
  "indiceDaHora (cenarioAna\<lparr>campoHora := js ''10:00''\<rparr>) = 1"
  "indiceDaHora (cenarioAna\<lparr>campoNome := js ''Bia''\<rparr>) = 0"
  "indiceDaHora (cenarioAna\<lparr>campoNome := js ''Caio'', campoHora := js ''08:30''\<rparr>) = -1"
  by (simp_all add: indiceDaHora_def LISTA_DE_HORARIOS_FIXOS_def cenarioAna_def js_def)

lemma cenario_do_dia:
  "sort_key indiceDaHora (filter (\<lambda>a. campoData a = js ''2025-10-06'') cenarioDoDia)
     = [cenarioAna\<lparr>campoNome := js ''Caio'', campoHora := js ''08:30''\<rparr>,
        cenarioAna\<lparr>campoNome := js ''Bia''\<rparr>, cenarioAna\<lparr>campoHora := js ''10:00''\<rparr>]"
proof -
  have "filter (\<lambda>a. campoData a = js ''2025-10-06'') cenarioDoDia
          = [cenarioAna\<lparr>campoHora := js ''10:00''\<rparr>, cenarioAna\<lparr>campoNome := js ''Bia''\<rparr>,
             cenarioAna\<lparr>campoNome := js ''Caio'', campoHora := js ''08:30''\<rparr>]"
    by (simp add: cenarioDoDia_def cenarioAna_def js_def)
  then show ?thesis by (simp add: cenario_indices)
qed

lemma cenario_pegar:
  "pegarListaDeAgendamentos (salvarListaDeAgendamentos (\<lambda>n. n) (JArr (map novoAgendamento cenarioDoDia)))
     = JArr (map novoAgendamento cenarioDoDia)"
  by (rule pegar_salvar_agendamentos)

lemma novoAgendamento_igual: "novoAgendamento a = novoAgendamento b \<Longrightarrow> a = b"
  by (cases a; cases b) (simp add: novoAgendamento_def)

lemma mapa_novoAgendamento_igual:
  "map novoAgendamento xs = map novoAgendamento ys \<Longrightarrow> xs = ys"
  by (rule inj_onD [OF inj_on_mapI [of novoAgendamento UNIV], of xs ys])
     (auto intro: inj_onI novoAgendamento_igual)

section \<open>Properties of the validation rules\<close>

text \<open>
  Claim C2. \<^verbatim>\<open>dataEstaDentroDoPeriodoPermitido\<close> answers true exactly for the texts that
  parse to a valid date whose day lies from 1 October 2025 to 31 December 2025, and false
  for every other input, the texts that do not parse included. In particular, for the
  text \<^verbatim>\<open>YYYY-MM-DD\<close> of any calendar date it answers true exactly when the year is
  2025 and the month is 10, 11 or 12.
\<close>

theorem dataEstaDentroDoPeriodoPermitido_correto:
  "(dataEstaDentroDoPeriodoPermitido outros s \<longleftrightarrow>
      (\<exists>t. Date_parse outros (s @ js ''T00:00:00'') = Some t
           \<and> MakeDay 2025 10 1 \<le> t \<and> t \<le> MakeDay 2025 12 31))
   \<and> (y < 10000 \<and> dataValida (int y) m d \<longrightarrow>
        dataEstaDentroDoPeriodoPermitido outros (textoISO y m d) = (y = 2025 \<and> m \<in> {10, 11, 12}))"
proof (intro conjI impI)
  show "dataEstaDentroDoPeriodoPermitido outros s \<longleftrightarrow>
      (\<exists>t. Date_parse outros (s @ js ''T00:00:00'') = Some t
           \<and> MakeDay 2025 10 1 \<le> t \<and> t \<le> MakeDay 2025 12 31)"
    using periodo_em_dias
    by (simp add: dataEstaDentroDoPeriodoPermitido_def ANO_PERMITIDO_def MESES_PERMITIDOS_def
        MakeDay_limites split: option.split)
next
  assume h: "y < 10000 \<and> dataValida (int y) m d"
  then have v: "dataValida (int y) m d" by simp
  have "dataEstaDentroDoPeriodoPermitido outros (textoISO y m d)
          = (int y = 2025 \<and> int m - 1 \<in> {9, 10, 11})"
    using h
    by (simp add: dataEstaDentroDoPeriodoPermitido_def Date_parse_textoISO
        YearFromDay_MakeDay [OF v] MonthFromDay_MakeDay [OF v] ANO_PERMITIDO_def MESES_PERMITIDOS_def)
  also have "\<dots> = (y = 2025 \<and> m \<in> {10, 11, 12})" by auto
  finally show "dataEstaDentroDoPeriodoPermitido outros (textoISO y m d) = (y = 2025 \<and> m \<in> {10, 11, 12})" .
qed

theorem dataEstaDentroDoPeriodoPermitido_correto_witness:
  "(2025::nat) < 10000 \<and> dataValida (int 2025) 10 6
   \<and> dataEstaDentroDoPeriodoPermitido (\<lambda>_. None) (js ''2025-10-06'')
   \<and> \<not> dataEstaDentroDoPeriodoPermitido (\<lambda>_. None) (js ''2026-01-01'')
   \<and> \<not> dataEstaDentroDoPeriodoPermitido (\<lambda>_. None) (js ''amanha'')"
proof -
  have v: "(2025::nat) < 10000 \<and> dataValida (int 2025) 10 6"
    by (simp add: dataValida_def DaysInMonth_def)
  have a: "textoISO 2025 10 6 = js ''2025-10-06''" "textoISO 2026 1 1 = js ''2026-01-01''"
    by (simp_all add: textoISO_def algarismo_def js_def)
  have w: "(2026::nat) < 10000 \<and> dataValida (int 2026) 1 1"
    by (simp add: dataValida_def DaysInMonth_def)
  have c: "camposDaData (js ''amanha'' @ js ''T00:00:00'') = None"
    by (simp add: camposDaData_def js_def)
  have n: "\<not> dataEstaDentroDoPeriodoPermitido (\<lambda>_. None) (js ''amanha'')"
    using dataEstaDentroDoPeriodoPermitido_correto [of "\<lambda>_. None" "js ''amanha''" 0 0 0] c
    by (simp add: Date_parse_def)
  show ?thesis
    using v w n a dataEstaDentroDoPeriodoPermitido_correto [of "\<lambda>_. None" "js ''amanha''" 2025 10 6]
      dataEstaDentroDoPeriodoPermitido_correto [of "\<lambda>_. None" "js ''amanha''" 2026 1 1]
    by simp
qed

text \<open>
  Claim C5. \<^verbatim>\<open>ehDomingo\<close> answers true for every text whose date is a Sunday, that is,
  a whole number of weeks away from Sunday 5 October 2025, in any month and any year: the
  function does not look at the allowed period. It answers false for the other days and
  for a text that does not parse.
\<close>

theorem ehDomingo_qualquer_data:
  "(ehDomingo outros s \<longleftrightarrow>
      (\<exists>t. Date_parse outros (s @ js ''T00:00:00'') = Some t \<and> 7 dvd (t - MakeDay 2025 10 5)))
   \<and> (y < 10000 \<and> dataValida (int y) m d \<longrightarrow>
        ehDomingo outros (textoISO y m d) = (7 dvd (MakeDay (int y) m d - MakeDay 2025 10 5)))"
  by (simp add: ehDomingo_def Date_parse_textoISO WeekDay_domingo split: option.split)

theorem ehDomingo_qualquer_data_witness:
  "(2025::nat) < 10000 \<and> dataValida (int 2025) 10 5
   \<and> ehDomingo (\<lambda>_. None) (js ''2025-10-05'')
   \<and> \<not> ehDomingo (\<lambda>_. None) (js ''2025-10-06'')
   \<and> ehDomingo (\<lambda>_. None) (js ''2026-01-04'')"
proof -
  have v: "(2025::nat) < 10000 \<and> dataValida (int 2025) 10 5"
    "(2025::nat) < 10000 \<and> dataValida (int 2025) 10 6"
    "(2026::nat) < 10000 \<and> dataValida (int 2026) 1 4"
    by (simp_all add: dataValida_def DaysInMonth_def)
  have a: "textoISO 2025 10 5 = js ''2025-10-05''" "textoISO 2025 10 6 = js ''2025-10-06''"
    "textoISO 2026 1 4 = js ''2026-01-04''"
    by (simp_all add: textoISO_def algarismo_def js_def)
  have m: "MakeDay 2025 10 5 = 20366" "MakeDay 2025 10 6 = 20367" "MakeDay 2026 1 4 = 20457"
    by (simp_all add: MakeDay_def DayFromYear_def diasAntesDoMes_def DaysInYear_def)
  show ?thesis
    using v a m ehDomingo_qualquer_data [of "\<lambda>_. None" "[]" 2025 10 5]
      ehDomingo_qualquer_data [of "\<lambda>_. None" "[]" 2025 10 6]
      ehDomingo_qualquer_data [of "\<lambda>_. None" "[]" 2026 1 4]
    by simp
qed

section \<open>Properties of the store\<close>

text \<open>
  Claim C3. \<^verbatim>\<open>pegarListaDeAgendamentos\<close> never raises (it is a total function without an
  error result), and it returns the empty list when the key has no entry, when the text
  is empty and when the text is not JSON (lemmas \<open>pegar_vazio\<close> and
  \<open>pegar_texto_invalido\<close>). Its result is not a list in every case: a stored text that is
  JSON but not an array is returned as it parses. For the stored text \<^verbatim>\<open>null\<close> the
  function returns \<^verbatim>\<open>null\<close>.
\<close>

theorem pegarListaDeAgendamentos_nao_lista:
  "pegarListaDeAgendamentos (Some (js ''null'')) = JNull"
  by (simp add: pegarListaDeAgendamentos_def JSON_parse_def js_def valor.simps [of "0x6E # _"] semEspaco_def espaco_def)

text \<open>
  Claim C8, as stated: for every stored content, saving what was loaded leaves the content
  as it was. It fails where the key has no entry (the entry \<^verbatim>\<open>[]\<close> is created), for a
  text that parses but is not written the way the serializer writes (\<^verbatim>\<open>[ ]\<close> becomes
  \<^verbatim>\<open>[]\<close>), and for a text that does not parse (replaced by \<^verbatim>\<open>[]\<close>).
\<close>

theorem salvar_pegar_contraexemplo:
  "salvarListaDeAgendamentos (\<lambda>n. n) (pegarListaDeAgendamentos None) \<noteq> None
   \<and> salvarListaDeAgendamentos (\<lambda>n. n) (pegarListaDeAgendamentos (Some (js ''[ ]''))) \<noteq> Some (js ''[ ]'')
   \<and> salvarListaDeAgendamentos (\<lambda>n. n) (pegarListaDeAgendamentos (Some (js ''agenda''))) \<noteq> Some (js ''agenda'')"
  by (simp add: salvarListaDeAgendamentos_def pegarListaDeAgendamentos_def JSON_parse_def
      JSON_stringify_def js_def valor_colchete semEspaco_def espaco_def valor_outro numero_def
      ehDigito_def)

text \<open>
  Claim C8, amended: for every list of appointments (objects with the five text fields
  nome, telefone, servico, data, hora), loading what \<^verbatim>\<open>salvarListaDeAgendamentos\<close> wrote
  returns the same list, and saving what was loaded leaves that content unchanged.
\<close>

theorem salvar_pegar_agendamentos:
  "pegarListaDeAgendamentos (salvarListaDeAgendamentos num (JArr (map novoAgendamento ags)))
     = JArr (map novoAgendamento ags)
   \<and> salvarListaDeAgendamentos num
        (pegarListaDeAgendamentos (salvarListaDeAgendamentos num (JArr (map novoAgendamento ags))))
     = salvarListaDeAgendamentos num (JArr (map novoAgendamento ags))"
proof -
  have "canonico (JArr (map novoAgendamento ags))"
    by (simp add: canonico_novoAgendamento)
  then show ?thesis by (simp add: pegar_salvar)
qed

section \<open>Properties of the submit handler\<close>

text \<open>
  Claim C4. The handler checks the required fields, the allowed period, Sunday and the
  occupancy in that order, each with its own message, and no path but the successful one
  changes the store (\<open>aoEnviar_validacoes\<close>). That it returns without raising does not
  hold on stored content that is valid JSON but not a list of appointments, which
  \<^verbatim>\<open>pegarListaDeAgendamentos\<close> hands on as it is. With Ana's booking followed by
  \<^verbatim>\<open>null\<close> in the store, a submission for Ana's date and time is answered with the
  occupancy message, and then the refresh of the list of times raises a TypeError. With
  the stored text \<^verbatim>\<open>null\<close> or \<^verbatim>\<open>[null]\<close>, a submission that passes the first three
  checks raises a TypeError in the occupancy check, before any message. The store is
  unchanged in the three cases.
\<close>

theorem aoEnviar_levanta_TypeError:
  "aoEnviar outros num (cenarioAna\<lparr>campoNome := js ''Bia''\<rparr>) cenarioComNulo
     = \<lparr>alertas = [MSG_OCUPADO], armazenado = cenarioComNulo, formularioLimpo = False,
        listaDeHorarios = None, excecao = Some TypeError\<rparr>
   \<and> aoEnviar outros num cenarioAna (Some (js ''null''))
     = \<lparr>alertas = [], armazenado = Some (js ''null''), formularioLimpo = False,
        listaDeHorarios = None, excecao = Some TypeError\<rparr>
   \<and> aoEnviar outros num cenarioAna (Some (js ''[null]''))
     = \<lparr>alertas = [], armazenado = Some (js ''[null]''), formularioLimpo = False,
        listaDeHorarios = None, excecao = Some TypeError\<rparr>"
proof (intro conjI)
  have o: "horarioEstaOcupado cenarioComNulo (js ''2025-10-06'') (js ''09:00'') = Inr True"
    by (simp add: horarioEstaOcupado_def cenario_com_nulo dataEHoraIguais_def
        propriedade_novoAgendamento cenario_campos)
  have n: "dataIgual (js ''2025-10-06'') JNull = Inl TypeError"
    by (simp add: dataIgual_def propriedade_def)
  have a: "dataIgual (js ''2025-10-06'') (novoAgendamento cenarioAna) = Inr True"
    by (simp add: dataIgual_def propriedade_novoAgendamento cenario_campos)
  have r: "atualizarListaDeHorarios outros True cenarioComNulo (js ''2025-10-06'') = Inl TypeError"
    by (simp add: atualizarListaDeHorarios_def cenario_datas cenario_campos cenario_com_nulo n a)
  show "aoEnviar outros num (cenarioAna\<lparr>campoNome := js ''Bia''\<rparr>) cenarioComNulo
     = \<lparr>alertas = [MSG_OCUPADO], armazenado = cenarioComNulo, formularioLimpo = False,
        listaDeHorarios = None, excecao = Some TypeError\<rparr>"
    by (simp add: aoEnviar_def Let_def parado_def cenario_campos cenario_datas o r)
next
  have o: "horarioEstaOcupado (Some (js ''null'')) (js ''2025-10-06'') (js ''09:00'') = Inl TypeError"
    by (rule horarioEstaOcupado_nulo)
  show "aoEnviar outros num cenarioAna (Some (js ''null''))
     = \<lparr>alertas = [], armazenado = Some (js ''null''), formularioLimpo = False,
        listaDeHorarios = None, excecao = Some TypeError\<rparr>"
    by (simp add: aoEnviar_def Let_def parado_def cenario_campos cenario_datas o)
next
  have o: "horarioEstaOcupado (Some (js ''[null]'')) (js ''2025-10-06'') (js ''09:00'') = Inl TypeError"
    by (simp add: horarioEstaOcupado_def pegar_lista_nula dataEHoraIguais_def propriedade_def)
  show "aoEnviar outros num cenarioAna (Some (js ''[null]''))
     = \<lparr>alertas = [], armazenado = Some (js ''[null]''), formularioLimpo = False,
        listaDeHorarios = None, excecao = Some TypeError\<rparr>"
    by (simp add: aoEnviar_def Let_def parado_def cenario_campos cenario_datas o)
qed

text \<open>
  Claim C1. After any sequence of submissions starting from the empty store, the store
  holds a list of appointments in which no two share the pair (data, hora): only the
  successful submissions change the store, and each appends one appointment whose pair
  the occupancy check found free. For a store that holds a list of appointments, a
  submission whose pair equals that of a stored appointment is answered \<^verbatim>\<open>true\<close> by
  \<^verbatim>\<open>horarioEstaOcupado\<close>, is not saved and does not report success.
\<close>

theorem sem_dois_agendamentos_no_mesmo_horario:
  "(\<exists>ags. pegarListaDeAgendamentos (enviarTodos outros num fs None) = JArr (map novoAgendamento ags)
          \<and> distinct (map (\<lambda>a. (campoData a, campoHora a)) ags))
   \<and> (pegarListaDeAgendamentos arm = JArr (map novoAgendamento ags)
        \<and> (campoData f, campoHora f) \<in> set (map (\<lambda>a. (campoData a, campoHora a)) ags) \<longrightarrow>
      horarioEstaOcupado arm (campoData f) (campoHora f) = Inr True
      \<and> armazenado (aoEnviar outros num f arm) = arm
      \<and> alertas (aoEnviar outros num f arm) \<noteq> [MSG_SALVO])"
proof (intro conjI impI)
  have "semConflito None"
    unfolding semConflito_def using pegar_vazio(1) by (intro exI [of _ "[]"]) simp
  then have "semConflito (enviarTodos outros num fs None)" by (rule semConflito_enviarTodos)
  then show "\<exists>ags. pegarListaDeAgendamentos (enviarTodos outros num fs None) = JArr (map novoAgendamento ags)
          \<and> distinct (map (\<lambda>a. (campoData a, campoHora a)) ags)"
    by (simp add: semConflito_def chave_def [abs_def])
next
  assume h: "pegarListaDeAgendamentos arm = JArr (map novoAgendamento ags)
        \<and> (campoData f, campoHora f) \<in> set (map (\<lambda>a. (campoData a, campoHora a)) ags)"
  then have o: "horarioEstaOcupado arm (campoData f) (campoHora f) = Inr True"
    using horarioEstaOcupado_agendamentos [of arm ags "campoData f" "campoHora f"]
    by (simp add: chave_def [abs_def])
  then show "horarioEstaOcupado arm (campoData f) (campoHora f) = Inr True" .
  show "armazenado (aoEnviar outros num f arm) = arm"
    using o by (simp add: aoEnviar_def Let_def parado_def split: sum.split)
  show "alertas (aoEnviar outros num f arm) \<noteq> [MSG_SALVO]"
    using o mensagens_distintas by (auto simp add: aoEnviar_def Let_def parado_def split: sum.split)
qed

theorem sem_dois_agendamentos_no_mesmo_horario_witness:
  "pegarListaDeAgendamentos cenarioArmazenado = JArr (map novoAgendamento [cenarioAna])
   \<and> (campoData (cenarioAna\<lparr>campoNome := js ''Bia''\<rparr>), campoHora (cenarioAna\<lparr>campoNome := js ''Bia''\<rparr>))
        \<in> set (map (\<lambda>a. (campoData a, campoHora a)) [cenarioAna])
   \<and> horarioEstaOcupado cenarioArmazenado (js ''2025-10-06'') (js ''09:00'') = Inr True
   \<and> armazenado (aoEnviar (\<lambda>_. None) (\<lambda>n. n) (cenarioAna\<lparr>campoNome := js ''Bia''\<rparr>) cenarioArmazenado)
        = cenarioArmazenado
   \<and> (\<exists>ags. pegarListaDeAgendamentos
               (enviarTodos (\<lambda>_. None) (\<lambda>n. n) [cenarioAna, cenarioAna\<lparr>campoNome := js ''Bia''\<rparr>] None)
             = JArr (map novoAgendamento ags)
           \<and> distinct (map (\<lambda>a. (campoData a, campoHora a)) ags))"
  using cenario_armazenado(1) cenario_campos
    sem_dois_agendamentos_no_mesmo_horario [of "\<lambda>_. None" "\<lambda>n. n"
      "[cenarioAna, cenarioAna\<lparr>campoNome := js ''Bia''\<rparr>]" cenarioArmazenado "[cenarioAna]"
      "cenarioAna\<lparr>campoNome := js ''Bia''\<rparr>"]
  by simp

section \<open>Properties of the month navigation\<close>

text \<open>
  Claim C6. With \<open>delta\<close> equal to +1 or -1, \<^verbatim>\<open>mudarMesAtual\<close> moves the displayed month
  to the adjacent month exactly when that month is October, November or December
  (9, 10, 11); otherwise the displayed month stays as it was and nothing is raised,
  whatever the render callback would do. From October +1 gives November, and from
  December +1 changes nothing.
\<close>

theorem mudarMesAtual_adjacente:
  "(delta = 1 \<or> delta = -1) \<longrightarrow>
     fst (mudarMesAtual render delta m) = (if m + delta \<in> {9, 10, 11} then m + delta else m)
     \<and> (m + delta \<notin> {9, 10, 11} \<longrightarrow> mudarMesAtual render delta m = (m, None))
     \<and> fst (mudarMesAtual render 1 mesInicial) = 10
     \<and> mudarMesAtual render 1 11 = (11, None)"
  by (simp add: mudarMesAtual_def MESES_PERMITIDOS_def mesInicial_def Let_def)

theorem mudarMesAtual_adjacente_witness:
  "((-1::int) = 1 \<or> (-1::int) = -1)
   \<and> fst (mudarMesAtual (\<lambda>_. Some TypeError) (-1) 10) = 9
   \<and> (9 + (-1) \<notin> {9, 10, 11::int})
   \<and> mudarMesAtual (\<lambda>_. Some TypeError) (-1) 9 = (9, None)"
  using mudarMesAtual_adjacente [of "-1" "\<lambda>_. Some TypeError" 10]
    mudarMesAtual_adjacente [of "-1" "\<lambda>_. Some TypeError" 9]
  by simp

text \<open>
  Claim C9. For every integer \<open>delta\<close>, not only +1 and -1, the displayed month becomes
  the current month plus \<open>delta\<close> exactly when that sum is 9, 10 or 11, and is left
  unchanged otherwise; +2 while October is displayed jumps to December.
\<close>

theorem mudarMesAtual_qualquer_delta:
  "fst (mudarMesAtual render delta m) = (if m + delta \<in> {9, 10, 11} then m + delta else m)
   \<and> fst (mudarMesAtual render 2 9) = 11"
  by (simp add: mudarMesAtual_def MESES_PERMITIDOS_def Let_def)

theorem mudarMesAtual_qualquer_delta_witness:
  "fst (mudarMesAtual (\<lambda>_. None) 2 9) = 11 \<and> fst (mudarMesAtual (\<lambda>_. None) 5 9) = 9
   \<and> fst (mudarMesAtual (\<lambda>_. None) (-2) 11) = 9"
  using mudarMesAtual_qualquer_delta [of "\<lambda>_. None" 2 9]
    mudarMesAtual_qualquer_delta [of "\<lambda>_. None" 5 9]
    mudarMesAtual_qualquer_delta [of "\<lambda>_. None" "-2" 11]
  by simp

section \<open>Properties of the appointments of a day\<close>

text \<open>
  Claim C7. For every stored list of appointments and every date,
  \<^verbatim>\<open>mostrarDetalhesDoDia\<close> selects exactly the stored appointments whose \<^verbatim>\<open>data\<close>
  equals the date (as a multiset: each as often as it is stored), sorted by the position
  of their \<^verbatim>\<open>hora\<close> in \<^verbatim>\<open>LISTA_DE_HORARIOS_FIXOS\<close>. What it writes into the box is
  the heading with the date followed, when none matches, by the paragraph
  \<^verbatim>\<open>Nenhum agendamento neste dia.\<close> and otherwise by the table with the columns Hora,
  Cliente and Servi\<^verbatim>\<open>c\<close>o (its \<^verbatim>\<open>c\<close> with a cedilla, the code unit 0xE7) and one row (hora, nome, servico) for each selected
  appointment, in the sorted order. For a time of the list, the position is the index at
  which the list holds it.
\<close>

theorem mostrarDetalhesDoDia_ordenado:
  "(pegarListaDeAgendamentos arm = JArr (map novoAgendamento ags) \<longrightarrow>
     (\<exists>sel. agendamentosDoDia arm d = Inr (map novoAgendamento sel)
        \<and> mset sel = filter_mset (\<lambda>a. campoData a = d) (mset ags)
        \<and> sorted (map indiceDaHora sel)
        \<and> mostrarDetalhesDoDia txt True arm d
             = Inr (Some
                 (if sel = []
                  then js ''<h4>Agendamentos em '' @ d
                       @ js ''</h4><p>Nenhum agendamento neste dia.</p>''
                  else js ''<h4>Agendamentos em '' @ d
                       @ js ''</h4><table><thead><tr><th>Hora</th><th>Cliente</th><th>Servi''
                       @ [0xE7] @ js ''o</th></tr></thead><tbody>''
                       @ concat (map (\<lambda>a. js ''<tr><td>'' @ campoHora a @ js ''</td><td>''
                                       @ campoNome a @ js ''</td><td>'' @ campoServico a
                                       @ js ''</td></tr>'') sel)
                       @ js ''</tbody></table>''))))
   \<and> (campoHora a \<in> set LISTA_DE_HORARIOS_FIXOS \<longrightarrow>
        0 \<le> indiceDaHora a
        \<and> LISTA_DE_HORARIOS_FIXOS ! nat (indiceDaHora a) = campoHora a)"
proof (intro conjI impI)
  assume "campoHora a \<in> set LISTA_DE_HORARIOS_FIXOS"
  then show "0 \<le> indiceDaHora a"
    and "LISTA_DE_HORARIOS_FIXOS ! nat (indiceDaHora a) = campoHora a"
    by (simp_all add: indiceDaHora_def indexOf_presente indexOf_nth)
next
  assume a: "pegarListaDeAgendamentos arm = JArr (map novoAgendamento ags)"
  define sel where "sel = sort_key indiceDaHora (filter (\<lambda>a. campoData a = d) ags)"
  have e: "agendamentosDoDia arm d = Inr (map novoAgendamento sel)"
    unfolding sel_def by (rule agendamentosDoDia_agendamentos [OF a])
  have m: "mset sel = filter_mset (\<lambda>a. campoData a = d) (mset ags)"
    by (simp add: sel_def)
  have s: "sorted (map indiceDaHora sel)" by (simp add: sel_def)
  have l: "map linhaDe sel
             = map (\<lambda>a. js ''<tr><td>'' @ campoHora a @ js ''</td><td>'' @ campoNome a
                        @ js ''</td><td>'' @ campoServico a @ js ''</td></tr>'') sel"
    by (simp add: linhaDe_def)
  have v: "htmlVazio d
             = js ''<h4>Agendamentos em '' @ d @ js ''</h4><p>Nenhum agendamento neste dia.</p>''"
    by (simp add: htmlVazio_def cabecalho_def js_def)
  have t: "htmlTabela d ls
             = js ''<h4>Agendamentos em '' @ d
               @ js ''</h4><table><thead><tr><th>Hora</th><th>Cliente</th><th>Servi''
               @ [0xE7] @ js ''o</th></tr></thead><tbody>'' @ concat ls
               @ js ''</tbody></table>''" for ls
    by (simp add: htmlTabela_def cabecalho_def js_def)
  have h: "mostrarDetalhesDoDia txt True arm d
             = Inr (Some (if sel = [] then htmlVazio d else htmlTabela d (map linhaDe sel)))"
    by (simp add: mostrarDetalhesDoDia_def e mapear_linha)
  show "\<exists>sel. agendamentosDoDia arm d = Inr (map novoAgendamento sel)
        \<and> mset sel = filter_mset (\<lambda>a. campoData a = d) (mset ags)
        \<and> sorted (map indiceDaHora sel)
        \<and> mostrarDetalhesDoDia txt True arm d
             = Inr (Some
                 (if sel = []
                  then js ''<h4>Agendamentos em '' @ d
                       @ js ''</h4><p>Nenhum agendamento neste dia.</p>''
                  else js ''<h4>Agendamentos em '' @ d
                       @ js ''</h4><table><thead><tr><th>Hora</th><th>Cliente</th><th>Servi''
                       @ [0xE7] @ js ''o</th></tr></thead><tbody>''
                       @ concat (map (\<lambda>a. js ''<tr><td>'' @ campoHora a @ js ''</td><td>''
                                       @ campoNome a @ js ''</td><td>'' @ campoServico a
                                       @ js ''</td></tr>'') sel)
                       @ js ''</tbody></table>''))"
    using e m s h [unfolded v t l] by blast
qed

theorem mostrarDetalhesDoDia_ordenado_witness:
  "pegarListaDeAgendamentos (salvarListaDeAgendamentos (\<lambda>n. n) (JArr (map novoAgendamento cenarioDoDia)))
     = JArr (map novoAgendamento cenarioDoDia)
   \<and> agendamentosDoDia (salvarListaDeAgendamentos (\<lambda>n. n) (JArr (map novoAgendamento cenarioDoDia)))
         (js ''2025-10-06'')
       = Inr (map novoAgendamento
           [cenarioAna\<lparr>campoNome := js ''Caio'', campoHora := js ''08:30''\<rparr>,
            cenarioAna\<lparr>campoNome := js ''Bia''\<rparr>, cenarioAna\<lparr>campoHora := js ''10:00''\<rparr>])
   \<and> mostrarDetalhesDoDia (\<lambda>n. n) True
        (salvarListaDeAgendamentos (\<lambda>n. n) (JArr (map novoAgendamento cenarioDoDia)))
        (js ''2025-10-06'')
       = Inr (Some (js ''<h4>Agendamentos em 2025-10-06</h4><table><thead><tr><th>Hora</th><th>Cliente</th><th>Servi''
                    @ [0xE7] @ js ''o</th></tr></thead><tbody><tr><td>08:30</td><td>Caio</td><td>Corte</td></tr><tr><td>09:00</td><td>Bia</td><td>Corte</td></tr><tr><td>10:00</td><td>Ana</td><td>Corte</td></tr></tbody></table>''))
   \<and> mostrarDetalhesDoDia (\<lambda>n. n) True
        (salvarListaDeAgendamentos (\<lambda>n. n) (JArr (map novoAgendamento cenarioDoDia)))
        (js ''2025-10-08'')
       = Inr (Some (js ''<h4>Agendamentos em 2025-10-08</h4><p>Nenhum agendamento neste dia.</p>''))"
proof -
  let ?arm = "salvarListaDeAgendamentos (\<lambda>n. n) (JArr (map novoAgendamento cenarioDoDia))"
  let ?tres = "[cenarioAna\<lparr>campoNome := js ''Caio'', campoHora := js ''08:30''\<rparr>,
            cenarioAna\<lparr>campoNome := js ''Bia''\<rparr>, cenarioAna\<lparr>campoHora := js ''10:00''\<rparr>]"
  have d: "agendamentosDoDia ?arm (js ''2025-10-06'') = Inr (map novoAgendamento ?tres)"
    using agendamentosDoDia_agendamentos [OF cenario_pegar, of "js ''2025-10-06''"]
    by (simp add: cenario_do_dia)
  obtain sel where s: "agendamentosDoDia ?arm (js ''2025-10-06'') = Inr (map novoAgendamento sel)"
    and h: "mostrarDetalhesDoDia (\<lambda>n. n) True ?arm (js ''2025-10-06'')
             = Inr (Some
                 (if sel = []
                  then js ''<h4>Agendamentos em '' @ js ''2025-10-06''
                       @ js ''</h4><p>Nenhum agendamento neste dia.</p>''
                  else js ''<h4>Agendamentos em '' @ js ''2025-10-06''
                       @ js ''</h4><table><thead><tr><th>Hora</th><th>Cliente</th><th>Servi''
                       @ [0xE7] @ js ''o</th></tr></thead><tbody>''
                       @ concat (map (\<lambda>a. js ''<tr><td>'' @ campoHora a @ js ''</td><td>''
                                       @ campoNome a @ js ''</td><td>'' @ campoServico a
                                       @ js ''</td></tr>'') sel)
                       @ js ''</tbody></table>''))"
    using mostrarDetalhesDoDia_ordenado [of ?arm cenarioDoDia "js ''2025-10-06''" "\<lambda>n. n"]
      cenario_pegar by blast
  have "sel = ?tres" using s d by (simp add: mapa_novoAgendamento_igual)
  then have t: "mostrarDetalhesDoDia (\<lambda>n. n) True ?arm (js ''2025-10-06'')
       = Inr (Some (js ''<h4>Agendamentos em 2025-10-06</h4><table><thead><tr><th>Hora</th><th>Cliente</th><th>Servi''
                    @ [0xE7] @ js ''o</th></tr></thead><tbody><tr><td>08:30</td><td>Caio</td><td>Corte</td></tr><tr><td>09:00</td><td>Bia</td><td>Corte</td></tr><tr><td>10:00</td><td>Ana</td><td>Corte</td></tr></tbody></table>''))"
    using h by (simp add: cenarioAna_def js_def)
  obtain nenhum where m: "mset nenhum = filter_mset (\<lambda>a. campoData a = js ''2025-10-08'') (mset cenarioDoDia)"
    and v: "mostrarDetalhesDoDia (\<lambda>n. n) True ?arm (js ''2025-10-08'')
             = Inr (Some
                 (if nenhum = []
                  then js ''<h4>Agendamentos em '' @ js ''2025-10-08''
                       @ js ''</h4><p>Nenhum agendamento neste dia.</p>''
                  else js ''<h4>Agendamentos em '' @ js ''2025-10-08''
                       @ js ''</h4><table><thead><tr><th>Hora</th><th>Cliente</th><th>Servi''
                       @ [0xE7] @ js ''o</th></tr></thead><tbody>''
                       @ concat (map (\<lambda>a. js ''<tr><td>'' @ campoHora a @ js ''</td><td>''
                                       @ campoNome a @ js ''</td><td>'' @ campoServico a
                                       @ js ''</td></tr>'') nenhum)
                       @ js ''</tbody></table>''))"
    using mostrarDetalhesDoDia_ordenado [of ?arm cenarioDoDia "js ''2025-10-08''" "\<lambda>n. n"]
      cenario_pegar by blast
  have "nenhum = []" using m by (simp add: cenarioDoDia_def cenarioAna_def js_def)
  then have e: "mostrarDetalhesDoDia (\<lambda>n. n) True ?arm (js ''2025-10-08'')
       = Inr (Some (js ''<h4>Agendamentos em 2025-10-08</h4><p>Nenhum agendamento neste dia.</p>''))"
    using v by (simp add: js_def)
  show ?thesis using cenario_pegar d t e by simp
qed

text \<open>
  Claim C10. A stored appointment for the requested date whose \<^verbatim>\<open>hora\<close> is not in
  \<^verbatim>\<open>LISTA_DE_HORARIOS_FIXOS\<close> is not rejected: it is among the appointments presented,
  its position is -1, and it comes before every presented appointment whose \<^verbatim>\<open>hora\<close>
  is in the list.
\<close>

theorem mostrarDetalhesDoDia_hora_fora_da_lista:
  "pegarListaDeAgendamentos arm = JArr (map novoAgendamento ags) \<longrightarrow>
     (\<exists>sel. agendamentosDoDia arm d = Inr (map novoAgendamento sel)
        \<and> (\<forall>a \<in> set ags. campoData a = d \<longrightarrow> a \<in> set sel)
        \<and> (\<forall>a \<in> set sel. campoHora a \<notin> set LISTA_DE_HORARIOS_FIXOS \<longrightarrow>
              posicao (novoAgendamento a) = -1)
        \<and> (\<forall>i < length sel. \<forall>j < length sel.
              campoHora (sel ! i) \<notin> set LISTA_DE_HORARIOS_FIXOS
              \<and> campoHora (sel ! j) \<in> set LISTA_DE_HORARIOS_FIXOS \<longrightarrow> i < j))"
proof
  assume a: "pegarListaDeAgendamentos arm = JArr (map novoAgendamento ags)"
  define sel where "sel = sort_key indiceDaHora (filter (\<lambda>a. campoData a = d) ags)"
  have e: "agendamentosDoDia arm d = Inr (map novoAgendamento sel)"
    unfolding sel_def by (rule agendamentosDoDia_agendamentos [OF a])
  have m: "\<forall>a \<in> set ags. campoData a = d \<longrightarrow> a \<in> set sel" by (simp add: sel_def)
  have p: "\<forall>a \<in> set sel. campoHora a \<notin> set LISTA_DE_HORARIOS_FIXOS \<longrightarrow>
              posicao (novoAgendamento a) = -1"
    by (simp add: posicao_novoAgendamento indiceDaHora_def indexOf_ausente)
  have s: "sorted (map indiceDaHora sel)" by (simp add: sel_def)
  have o: "\<forall>i < length sel. \<forall>j < length sel.
              campoHora (sel ! i) \<notin> set LISTA_DE_HORARIOS_FIXOS
              \<and> campoHora (sel ! j) \<in> set LISTA_DE_HORARIOS_FIXOS \<longrightarrow> i < j"
  proof (intro allI impI)
    fix i j
    assume i: "i < length sel" and j: "j < length sel"
      and c: "campoHora (sel ! i) \<notin> set LISTA_DE_HORARIOS_FIXOS
              \<and> campoHora (sel ! j) \<in> set LISTA_DE_HORARIOS_FIXOS"
    have ki: "indiceDaHora (sel ! i) = -1" using c by (simp add: indiceDaHora_def indexOf_ausente)
    have kj: "0 \<le> indiceDaHora (sel ! j)" using c by (simp add: indiceDaHora_def indexOf_presente)
    show "i < j"
    proof (rule ccontr)
      assume "\<not> i < j"
      then have "j \<le> i" by simp
      then have "map indiceDaHora sel ! j \<le> map indiceDaHora sel ! i"
        using s i by (simp add: sorted_iff_nth_mono del: nth_map)
      then show False using ki kj i j by simp
    qed
  qed
  show "\<exists>sel. agendamentosDoDia arm d = Inr (map novoAgendamento sel)
        \<and> (\<forall>a \<in> set ags. campoData a = d \<longrightarrow> a \<in> set sel)
        \<and> (\<forall>a \<in> set sel. campoHora a \<notin> set LISTA_DE_HORARIOS_FIXOS \<longrightarrow>
              posicao (novoAgendamento a) = -1)
        \<and> (\<forall>i < length sel. \<forall>j < length sel.
              campoHora (sel ! i) \<notin> set LISTA_DE_HORARIOS_FIXOS
              \<and> campoHora (sel ! j) \<in> set LISTA_DE_HORARIOS_FIXOS \<longrightarrow> i < j)"
    using e m p o by blast
qed

theorem mostrarDetalhesDoDia_hora_fora_da_lista_witness:
  "pegarListaDeAgendamentos (salvarListaDeAgendamentos (\<lambda>n. n) (JArr (map novoAgendamento cenarioDoDia)))
     = JArr (map novoAgendamento cenarioDoDia)
   \<and> agendamentosDoDia (salvarListaDeAgendamentos (\<lambda>n. n) (JArr (map novoAgendamento cenarioDoDia)))
         (js ''2025-10-06'')
       = Inr (map novoAgendamento
           [cenarioAna\<lparr>campoNome := js ''Caio'', campoHora := js ''08:30''\<rparr>,
            cenarioAna\<lparr>campoNome := js ''Bia''\<rparr>, cenarioAna\<lparr>campoHora := js ''10:00''\<rparr>])
   \<and> js ''08:30'' \<notin> set LISTA_DE_HORARIOS_FIXOS
   \<and> (\<exists>sel. agendamentosDoDia
               (salvarListaDeAgendamentos (\<lambda>n. n) (JArr (map novoAgendamento cenarioDoDia)))
               (js ''2025-10-06'') = Inr (map novoAgendamento sel)
          \<and> cenarioAna\<lparr>campoNome := js ''Caio'', campoHora := js ''08:30''\<rparr> \<in> set sel)"
proof -
  have m: "cenarioAna\<lparr>campoNome := js ''Caio'', campoHora := js ''08:30''\<rparr> \<in> set cenarioDoDia"
    "campoData (cenarioAna\<lparr>campoNome := js ''Caio'', campoHora := js ''08:30''\<rparr>) = js ''2025-10-06''"
    by (simp_all add: cenarioDoDia_def cenarioAna_def)
  have n: "js ''08:30'' \<notin> set LISTA_DE_HORARIOS_FIXOS"
    by (simp add: LISTA_DE_HORARIOS_FIXOS_def js_def)
  have e: "\<exists>sel. agendamentosDoDia
               (salvarListaDeAgendamentos (\<lambda>n. n) (JArr (map novoAgendamento cenarioDoDia)))
               (js ''2025-10-06'') = Inr (map novoAgendamento sel)
          \<and> cenarioAna\<lparr>campoNome := js ''Caio'', campoHora := js ''08:30''\<rparr> \<in> set sel"
    using cenario_pegar m
      mostrarDetalhesDoDia_hora_fora_da_lista [of
        "salvarListaDeAgendamentos (\<lambda>n. n) (JArr (map novoAgendamento cenarioDoDia))" cenarioDoDia
        "js ''2025-10-06''"]
    by blast
  show ?thesis
    using e n cenario_pegar cenario_do_dia
      agendamentosDoDia_agendamentos [OF cenario_pegar, of "js ''2025-10-06''"]
    by simp
qed

end
